theory Spec2Isabelle
  imports Complex_Main "HOL-Library.Sublist"
begin

section \<open>JavaScript strings\<close>

text \<open>
  A string is a list of characters. The knowledge files and the queries are taken to be
  ASCII text, so that one \<open>char\<close> is one JavaScript code unit, \<open>length\<close> is \<open>.length\<close>
  and case conversion only touches the 26 letters.
\<close>

definition isUpper :: "char \<Rightarrow> bool" where
  "isUpper c = (65 \<le> (of_char c :: nat) \<and> (of_char c :: nat) \<le> 90)"

definition isLower :: "char \<Rightarrow> bool" where
  "isLower c = (97 \<le> (of_char c :: nat) \<and> (of_char c :: nat) \<le> 122)"

definition isDigit :: "char \<Rightarrow> bool" where
  "isDigit c = (48 \<le> (of_char c :: nat) \<and> (of_char c :: nat) \<le> 57)"

text \<open>The class \<open>\s\<close>, which is also what \<open>trim\<close> removes: tab, LF, VT, FF, CR and space.\<close>

definition isSpace :: "char \<Rightarrow> bool" where
  "isSpace c = ((9 \<le> (of_char c :: nat) \<and> (of_char c :: nat) \<le> 13) \<or> (of_char c :: nat) = 32)"

text \<open>The characters that \<open>.\<close> does not match in a regular expression: LF and CR.\<close>

definition isLineTerminator :: "char \<Rightarrow> bool" where
  "isLineTerminator c = ((of_char c :: nat) = 10 \<or> (of_char c :: nat) = 13)"

text \<open>An upper-case letter and its lower-case letter differ in the bit of value 32.\<close>

definition toLowerChar :: "char \<Rightarrow> char" where
  "toLowerChar c =
     (if isUpper c
      then Char (digit0 c) (digit1 c) (digit2 c) (digit3 c) (digit4 c) True (digit6 c) (digit7 c)
      else c)"

definition toUpperChar :: "char \<Rightarrow> char" where
  "toUpperChar c =
     (if isLower c
      then Char (digit0 c) (digit1 c) (digit2 c) (digit3 c) (digit4 c) False (digit6 c) (digit7 c)
      else c)"

definition toLowerCase :: "string \<Rightarrow> string" where
  "toLowerCase s = map toLowerChar s"

definition toUpperCase :: "string \<Rightarrow> string" where
  "toUpperCase s = map toUpperChar s"

definition trim :: "string \<Rightarrow> string" where
  "trim s = rev (dropWhile isSpace (rev (dropWhile isSpace s)))"

text \<open>\<open>s.includes(sub)\<close> and \<open>s.startsWith(p)\<close>.\<close>

definition str_includes :: "string \<Rightarrow> string \<Rightarrow> bool" where
  "str_includes s sub = sublist sub s"

definition startsWith :: "string \<Rightarrow> string \<Rightarrow> bool" where
  "startsWith s p = prefix p s"

text \<open>
  \<open>s.split(c)\<close> for a one-character separator: every occurrence separates, and the empty
  string gives one empty piece.
\<close>

fun split_char :: "char \<Rightarrow> string \<Rightarrow> string list" where
  "split_char sep [] = [[]]"
| "split_char sep (c # cs) =
     (if c = sep then [] # split_char sep cs
      else (case split_char sep cs of
              [] \<Rightarrow> [[c]]
            | w # ws \<Rightarrow> (c # w) # ws))"

text \<open>
  \<open>s.split(/[...]+/)\<close> for a character class \<open>P\<close>: every maximal run of characters of the
  class separates (used with \<open>\s\<close> and with \<open>[.!?]\<close>).
\<close>

fun split_runs :: "(char \<Rightarrow> bool) \<Rightarrow> string \<Rightarrow> string list" where
  "split_runs P [] = [[]]"
| "split_runs P (c # cs) =
     (if P c then
        (if cs \<noteq> [] \<and> P (hd cs) then split_runs P cs else [] # split_runs P cs)
      else (case split_runs P cs of
              [] \<Rightarrow> [[c]]
            | w # ws \<Rightarrow> (c # w) # ws))"

text \<open>\<open>parts.join(sep)\<close>.\<close>

fun join :: "string \<Rightarrow> string list \<Rightarrow> string" where
  "join sep [] = []"
| "join sep [x] = x"
| "join sep (x # y # ys) = x @ sep @ join sep (y # ys)"

text \<open>\<open>s.replace(pat, rep)\<close> for a string pattern: the first occurrence only.\<close>

fun replace_first :: "string \<Rightarrow> string \<Rightarrow> string \<Rightarrow> string" where
  "replace_first pat rep [] = (if pat = [] then rep else [])"
| "replace_first pat rep (c # cs) =
     (if prefix pat (c # cs) then rep @ drop (length pat) (c # cs)
      else c # replace_first pat rep cs)"

text \<open>
  The regular expressions of the composer are alternations whose branches are a literal
  or two literals with \<open>.*\<close> between them; \<open>.*\<close> stays on one line.
\<close>

datatype pattern = Lit string | DotStar string string

fun dot_star_then :: "string \<Rightarrow> string \<Rightarrow> bool" where
  "dot_star_then b [] = (b = [])"
| "dot_star_then b (c # cs) =
     (prefix b (c # cs) \<or> (\<not> isLineTerminator c \<and> dot_star_then b cs))"

fun dot_star_match :: "string \<Rightarrow> string \<Rightarrow> string \<Rightarrow> bool" where
  "dot_star_match a b [] = (a = [] \<and> b = [])"
| "dot_star_match a b (c # cs) =
     ((prefix a (c # cs) \<and> dot_star_then b (drop (length a) (c # cs)))
      \<or> dot_star_match a b cs)"

fun pattern_match :: "pattern \<Rightarrow> string \<Rightarrow> bool" where
  "pattern_match (Lit a) s = str_includes s a"
| "pattern_match (DotStar a b) s = dot_star_match a b s"

definition re_match :: "pattern list \<Rightarrow> string \<Rightarrow> bool" where
  "re_match alts s = list_ex (\<lambda>p. pattern_match p s) alts"

text \<open>\<open>line.match(/^[A-Z\s]+:$/)\<close>: one or more capitals or blanks, then a colon, then the end.\<close>

definition is_header :: "string \<Rightarrow> bool" where
  "is_header line =
     (line \<noteq> [] \<and> last line = CHR '':'' \<and> butlast line \<noteq> [] \<and>
      list_all (\<lambda>c. isUpper c \<or> isSpace c) (butlast line))"

section \<open>Knowledge source cache (backend/scraper.js)\<close>

text \<open>
  The module-level variable \<open>warrantyCache\<close> holds two nullable fields. A JavaScript
  \<open>null\<close> is \<open>None\<close>. Time is the integer number of milliseconds that \<open>Date.now()\<close>
  returns.
\<close>

record warrantyCache =
  data :: "string option"
  timestamp :: "int option"

definition CACHE_DURATION :: int where
  "CACHE_DURATION = 60 * 60 * 1000"

definition emptyCache :: warrantyCache where
  "emptyCache = \<lparr>data = None, timestamp = None\<rparr>"

text \<open>\<open>clearWarrantyCache\<close> overwrites the variable with the two nulls, whatever it held.\<close>

definition clearWarrantyCache :: "warrantyCache \<Rightarrow> warrantyCache" where
  "clearWarrantyCache c = \<lparr>data = None, timestamp = None\<rparr>"

text \<open>
  The two collaborators of \<open>getWarrantyWithCache\<close> are what the live fetch would do if it
  were awaited (throw an error, or return the text) and what the fallback file
  \<open>data/warranty.txt\<close> is (absent, present but \<open>readFileSync\<close> throws, or present with a
  content).
\<close>

datatype fetch_error = FetchError string

datatype fallback_file = Missing | Unreadable | Content string

text \<open>
  What one call does: the value it returns or the error it throws, the cache it leaves
  behind, and how many times it called \<open>fetchWarrantyFromWebsite\<close>.
\<close>

record get_outcome =
  result :: "fetch_error + string"
  cache_after :: warrantyCache
  fetch_calls :: nat

text \<open>
  The guard \<open>warrantyCache.data && warrantyCache.timestamp && (now - timestamp) < CACHE_DURATION\<close>:
  a string is truthy when it is not empty, a number when it is not zero.
\<close>

definition cache_valid :: "int \<Rightarrow> warrantyCache \<Rightarrow> bool" where
  "cache_valid now c =
     (case data c of
        None \<Rightarrow> False
      | Some d \<Rightarrow>
          d \<noteq> [] \<and>
          (case timestamp c of
             None \<Rightarrow> False
           | Some t \<Rightarrow> t \<noteq> 0 \<and> now - t < CACHE_DURATION))"

definition getWarrantyWithCache ::
  "int \<Rightarrow> fetch_error + string \<Rightarrow> fallback_file \<Rightarrow> warrantyCache \<Rightarrow> get_outcome" where
  "getWarrantyWithCache now live fb c =
     (if cache_valid now c then
        \<lparr>result = Inr (the (data c)), cache_after = c, fetch_calls = 0\<rparr>
      else
        (case live of
           Inr warrantyData \<Rightarrow>
             \<lparr>result = Inr warrantyData,
              cache_after = \<lparr>data = Some warrantyData, timestamp = Some now\<rparr>,
              fetch_calls = 1\<rparr>
         | Inl err \<Rightarrow>
             (case fb of
                Content fileData \<Rightarrow>
                  \<lparr>result = Inr fileData,
                   cache_after = \<lparr>data = Some fileData, timestamp = Some now\<rparr>,
                   fetch_calls = 1\<rparr>
              | Missing \<Rightarrow> \<lparr>result = Inl err, cache_after = c, fetch_calls = 1\<rparr>
              | Unreadable \<Rightarrow> \<lparr>result = Inl err, cache_after = c, fetch_calls = 1\<rparr>)))"

text \<open>
  A run of calls, each with its own clock reading and its own state of the two
  collaborators; the cache is threaded from one call to the next.
\<close>

fun get_calls ::
  "(int \<times> (fetch_error + string) \<times> fallback_file) list \<Rightarrow> warrantyCache \<Rightarrow> get_outcome list" where
  "get_calls [] c = []"
| "get_calls ((now, live, fb) # rest) c =
     (let out = getWarrantyWithCache now live fb c
      in out # get_calls rest (cache_after out))"

section \<open>Answer extraction: the product matcher (getAnswerFromData, first stage)\<close>

text \<open>The table \<open>productKeywords\<close>, in the order of its entries.\<close>

definition productKeywords :: "(string \<times> string list) list" where
  "productKeywords =
     [(''tablet'', [''tablet'', ''tab'']),
      (''smartphone'', [''smartphone'', ''phone'', ''galaxy'']),
      (''watch'', [''watch'', ''gear'']),
      (''buds'', [''buds'', ''headphone'', ''earphone'']),
      (''charger'', [''charger'']),
      (''battery'', [''battery'']),
      (''s pen'', [''s pen'', ''spen'', ''pen'']),
      (''strap'', [''strap'', ''band'']),
      (''ring'', [''ring'', ''galaxy ring'']),
      (''cooker hood'', [''cooker hood'', ''hood'', ''cooker'']),
      (''vacuum cleaners'', [''vacuum cleaners'', ''vacuum cleaner'', ''vacuum'', ''robotic vacuum'']),
      (''robotic vacuum cleaners'', [''robotic vacuum cleaners'', ''robotic vacuum'']),
      (''monitor'', [''monitor'', ''monitors'', ''display'', ''monitor for consumers'']),
      (''large format display'', [''large format display'', ''large format'']),
      (''set back box'', [''set back box'', ''sbb'', ''back box'']),
      (''oled monitor'', [''oled monitor'', ''oled monitor for consumers'', ''oled''])]"

text \<open>The first entry one of whose keywords the lower-cased message contains.\<close>

definition matchedProduct :: "string \<Rightarrow> string option" where
  "matchedProduct message =
     map_option fst
       (find (\<lambda>(product, keywords). list_ex (\<lambda>keyword. str_includes message keyword) keywords)
          productKeywords)"

text \<open>The test that a header names the section of the matched product.\<close>

definition product_header :: "string \<Rightarrow> string \<Rightarrow> bool" where
  "product_header mp productName =
     (str_includes productName mp \<or>
      (mp = ''tablet'' \<and> productName = ''tablet'') \<or>
      (mp = ''smartphone'' \<and>
         (str_includes productName ''smartphone'' \<or> str_includes productName ''phone'')) \<or>
      (mp = ''watch'' \<and> (str_includes productName ''watch'' \<or> str_includes productName ''gear'')) \<or>
      (mp = ''buds'' \<and> (str_includes productName ''buds'' \<or> str_includes productName ''headphone'')) \<or>
      (mp = ''charger'' \<and> str_includes productName ''charger'') \<or>
      (mp = ''battery'' \<and> str_includes productName ''battery'') \<or>
      (mp = ''s pen'' \<and> str_includes productName ''pen'') \<or>
      (mp = ''strap'' \<and> str_includes productName ''strap'') \<or>
      (mp = ''ring'' \<and> str_includes productName ''ring'') \<or>
      (mp = ''cooker hood'' \<and>
         (str_includes productName ''cooker hood'' \<or> str_includes productName ''hood'')) \<or>
      (mp = ''vacuum cleaners'' \<and>
         (str_includes productName ''vacuum'' \<or> str_includes productName ''cleaner'')) \<or>
      (mp = ''robotic vacuum cleaners'' \<and>
         (str_includes productName ''robotic vacuum'' \<or> str_includes productName ''robotic'')) \<or>
      (mp = ''monitor'' \<and>
         (str_includes productName ''monitor'' \<or> str_includes productName ''display'')) \<or>
      (mp = ''large format display'' \<and>
         (str_includes productName ''large format'' \<or> str_includes productName ''format display'')) \<or>
      (mp = ''set back box'' \<and>
         (str_includes productName ''set back box'' \<or> str_includes productName ''sbb'' \<or>
          str_includes productName ''back box'')) \<or>
      (mp = ''oled monitor'' \<and>
         (str_includes productName ''oled monitor'' \<or> str_includes productName ''oled'')))"

text \<open>\<open>line.match(/pat/i)\<close> for a literal pattern, given in lower case.\<close>

definition ci_includes :: "string \<Rightarrow> string \<Rightarrow> bool" where
  "ci_includes line pat = str_includes (toLowerCase line) pat"

text \<open>
  \<open>line.match(/Warranty period:\s*(\d+)\s*Months?/i)\<close>, the captured digits of the leftmost
  match. After the label come blanks, then the longest run of digits (which must not be
  empty), then blanks, then \<open>month\<close> in any case.
\<close>

definition period_here :: "string \<Rightarrow> string option" where
  "period_here rest =
     (let r1 = dropWhile isSpace rest;
          digits = takeWhile isDigit r1;
          r2 = dropWhile isSpace (dropWhile isDigit r1)
      in if digits \<noteq> [] \<and> prefix ''month'' (toLowerCase r2) then Some digits else None)"

fun match_period :: "string \<Rightarrow> string option" where
  "match_period [] = None"
| "match_period (c # cs) =
     (if prefix ''warranty period:'' (toLowerCase (c # cs)) then
        (case period_here (drop 16 (c # cs)) of
           Some digits \<Rightarrow> Some digits
         | None \<Rightarrow> match_period cs)
      else match_period cs)"

text \<open>\<open>line.replace(/pat\s*/i, '')\<close> for a literal pattern, given in lower case.\<close>

fun remove_label :: "string \<Rightarrow> string \<Rightarrow> string" where
  "remove_label pat [] = []"
| "remove_label pat (c # cs) =
     (if prefix pat (toLowerCase (c # cs)) then dropWhile isSpace (drop (length pat) (c # cs))
      else c # remove_label pat cs)"

text \<open>
  The inner loop over the lines after the label \<open>- Repair services available:\<close>; the
  caller passes the lines \<open>i + 1\<close> to \<open>i + 9\<close>.
\<close>

fun repair_lines :: "string list \<Rightarrow> string list" where
  "repair_lines [] = []"
| "repair_lines (raw # rest) =
     (let nextLine = trim raw in
      if startsWith nextLine ''- '' then drop 2 nextLine # repair_lines rest
      else if (nextLine \<noteq> [] \<and> isUpper (hd nextLine)) \<or> nextLine = [] then []
      else repair_lines rest)"

record product_scan =
  inProductSection :: bool
  productSection :: string
  warrantyPeriod :: "string option"
  repairServices :: "string list"
  warrantyService :: "string option"

definition product_start :: product_scan where
  "product_start =
     \<lparr>inProductSection = False, productSection = [], warrantyPeriod = None,
      repairServices = [], warrantyService = None\<rparr>"

text \<open>What one line inside the product section contributes.\<close>

definition extract_line :: "string \<Rightarrow> string list \<Rightarrow> product_scan \<Rightarrow> product_scan" where
  "extract_line line rest st =
     (let st1 = (if ci_includes line ''- warranty period:'' then
                   (case match_period line of
                      Some digits \<Rightarrow> st\<lparr>warrantyPeriod := Some (digits @ '' Months'')\<rparr>
                    | None \<Rightarrow> st)
                 else st);
          st2 = (if ci_includes line ''- warranty service offered:'' then
                   st1\<lparr>warrantyService := Some (trim (remove_label ''- warranty service offered:'' line))\<rparr>
                 else st1)
      in if ci_includes line ''- repair services available:'' then
           st2\<lparr>repairServices := repair_lines (take 9 rest)\<rparr>
         else st2)"

text \<open>
  The loop over the lines; returning the state without a recursive call is the \<open>break\<close>.
\<close>

fun product_loop :: "string \<Rightarrow> product_scan \<Rightarrow> string list \<Rightarrow> product_scan" where
  "product_loop mp st [] = st"
| "product_loop mp st (raw # rest) =
     (let line = trim raw in
      if is_header line \<and> \<not> str_includes line ''==='' \<and>
         product_header mp (toLowerCase (replace_first '':'' [] line))
      then product_loop mp (st\<lparr>inProductSection := True, productSection := line\<rparr>) rest
      else if is_header line \<and> \<not> str_includes line ''==='' \<and> inProductSection st
      then st
      else if inProductSection st then
        (let st' = extract_line line rest st in
         if startsWith line ''==='' \<or> (is_header line \<and> \<not> str_includes line (productSection st'))
         then st'
         else product_loop mp st' rest)
      else product_loop mp st rest)"

text \<open>
  The test of the first branch of the loop: the line is a header that the function takes
  for the header of the matched product.
\<close>

definition opens_section :: "string \<Rightarrow> string \<Rightarrow> bool" where
  "opens_section mp line =
     (is_header line \<and> \<not> str_includes line ''==='' \<and>
      product_header mp (toLowerCase (replace_first '':'' [] line)))"

text \<open>The reply is built only when a period was found; the other two parts are optional.\<close>

definition product_response :: "product_scan \<Rightarrow> string option" where
  "product_response st =
     (case warrantyPeriod st of
        None \<Rightarrow> None
      | Some period \<Rightarrow>
          Some (''Warranty period: '' @ period
                @ (case warrantyService st of
                     None \<Rightarrow> []
                   | Some service \<Rightarrow> if service \<noteq> [] then ''. '' @ service else [])
                @ (if repairServices st \<noteq> []
                   then ''. Repair services available: '' @ join '', '' (repairServices st) @ ''.''
                   else [])))"

definition product_matcher :: "string \<Rightarrow> string list \<Rightarrow> string option" where
  "product_matcher message lines =
     (case matchedProduct message of
        None \<Rightarrow> None
      | Some mp \<Rightarrow> product_response (product_loop mp product_start lines))"

section \<open>Answer extraction: the question and answer scorer (getAnswerFromData, second stage)\<close>

record qa =
  question :: string
  answer :: string

record qa_scan =
  inQA :: bool
  currentQ :: string
  currentA :: string
  qaPairs :: "qa list"

definition qa_start :: qa_scan where
  "qa_start = \<lparr>inQA = False, currentQ = [], currentA = [], qaPairs = []\<rparr>"

text \<open>\<open>line.replace(/^Q:\s*/, '')\<close> and its siblings: a prefix and the blanks after it.\<close>

definition strip_prefix :: "string \<Rightarrow> string \<Rightarrow> string" where
  "strip_prefix p line = (if prefix p line then dropWhile isSpace (drop (length p) line) else line)"

text \<open>\<open>if (currentQ && currentA) qaPairs.push(...)\<close>\<close>

definition push_pair :: "qa_scan \<Rightarrow> qa list" where
  "push_pair st =
     (if currentQ st \<noteq> [] \<and> currentA st \<noteq> []
      then qaPairs st @ [\<lparr>question = currentQ st, answer = currentA st\<rparr>]
      else qaPairs st)"

definition qa_step :: "qa_scan \<Rightarrow> string \<Rightarrow> qa_scan" where
  "qa_step st raw =
     (let line = trim raw in
      if startsWith line ''Q:'' \<or> startsWith line ''QUESTIONS ABOUT'' then
        \<lparr>inQA = True, currentQ = toLowerCase (strip_prefix ''Q:'' line), currentA = [],
         qaPairs = push_pair st\<rparr>
      else if inQA st \<and> startsWith line ''A:'' then st\<lparr>currentA := strip_prefix ''A:'' line\<rparr>
      else if inQA st \<and> currentA st \<noteq> [] \<and> length line > 0 then
        st\<lparr>currentA := currentA st @ '' '' @ line\<rparr>
      else if inQA st \<and> length line = 0 \<and> currentA st \<noteq> [] then st\<lparr>inQA := False\<rparr>
      else st)"

definition parse_qa :: "string list \<Rightarrow> qa list" where
  "parse_qa lines = push_pair (foldl qa_step qa_start lines)"

definition stopwords :: "string list" where
  "stopwords = [''how'', ''what'', ''when'', ''where'', ''why'', ''can'', ''do'', ''i'', ''my'',
                ''the'', ''a'', ''an'']"

text \<open>Both the message and the question must contain the keyword for its bonus.\<close>

definition bonus :: "string \<Rightarrow> string \<Rightarrow> string \<Rightarrow> rat \<Rightarrow> rat" where
  "bonus message qLower keyword points =
     (if str_includes message keyword \<and> str_includes qLower keyword then points else 0)"

definition word_matches :: "string \<Rightarrow> string \<Rightarrow> bool" where
  "word_matches qWord mWord =
     (mWord = qWord \<or>
      (length qWord > 4 \<and> (str_includes mWord qWord \<or> str_includes qWord mWord)))"

text \<open>
  The parts of the score of one pair, in the order of the source: the exact phrase, the
  share of important words, the keyword bonuses and the penalty. The source adds them up
  in double precision; here they are rational numbers, and the only part that need not be
  an integer is the share times 50.
\<close>

definition phrase_points :: "string \<Rightarrow> string \<Rightarrow> rat" where
  "phrase_points message qLower =
     (let qPhrase = trim (strip_prefix ''q:'' qLower)
      in if str_includes message qPhrase \<or> str_includes qPhrase message then 100 else 0)"

definition word_points :: "string \<Rightarrow> string \<Rightarrow> rat" where
  "word_points message qLower =
     (let qWords = filter (\<lambda>w. length w > 2) (split_runs isSpace qLower);
          messageWords = map toLowerCase (filter (\<lambda>w. length w > 2) (split_runs isSpace message));
          importantWords = filter (\<lambda>w. length w > 3 \<and> w \<notin> set stopwords) qWords;
          matchingWords =
            length (filter (\<lambda>qWord. list_ex (word_matches qWord) messageWords) importantWords)
      in if length importantWords > 0
         then (of_nat matchingWords / of_nat (length importantWords)) * 50 else 0)"

definition penalty :: "string \<Rightarrow> string \<Rightarrow> rat" where
  "penalty message qLower =
     (if str_includes qLower ''track'' \<and> \<not> str_includes message ''track'' \<and>
         \<not> str_includes message ''order''
      then 10 else 0)"

definition qa_score :: "string \<Rightarrow> qa \<Rightarrow> rat" where
  "qa_score message p =
     (let qLower = toLowerCase (question p)
      in phrase_points message qLower
         + word_points message qLower
         + bonus message qLower ''track'' 20
         + bonus message qLower ''cancel'' 20
         + bonus message qLower ''latest'' 20
         + bonus message qLower ''order id'' 30
         + bonus message qLower ''all order'' 30
         + bonus message qLower ''reorder'' 20
         + bonus message qLower ''change'' 20
         + bonus message qLower ''wrong item'' 30
         - penalty message qLower)"

text \<open>The loop that keeps the first pair of strictly greatest score.\<close>

record best_scan =
  bestMatch :: "qa option"
  bestScore :: rat

definition best_start :: best_scan where
  "best_start = \<lparr>bestMatch = None, bestScore = 0\<rparr>"

definition best_step :: "string \<Rightarrow> best_scan \<Rightarrow> qa \<Rightarrow> best_scan" where
  "best_step message st p =
     (if qa_score message p > bestScore st
      then \<lparr>bestMatch = Some p, bestScore = qa_score message p\<rparr>
      else st)"

definition best_loop :: "string \<Rightarrow> best_scan \<Rightarrow> qa list \<Rightarrow> best_scan" where
  "best_loop message st pairs = foldl (best_step message) st pairs"

text \<open>\<open>if (bestMatch && bestScore > 15) return bestMatch.answer\<close>\<close>

definition qa_answer :: "best_scan \<Rightarrow> string option" where
  "qa_answer st =
     (case bestMatch st of
        None \<Rightarrow> None
      | Some p \<Rightarrow> if bestScore st > 15 then Some (answer p) else None)"

definition qa_scorer :: "string \<Rightarrow> string list \<Rightarrow> string option" where
  "qa_scorer message lines = qa_answer (best_loop message best_start (parse_qa lines))"

section \<open>Answer extraction: the section fallback (getAnswerFromData, third stage)\<close>

text \<open>
  The loop over the lines keeps three variables. A line that is a header or starts with
  \<open>===\<close> closes the section collected so far, which is scored only then and only while
  \<open>bestMatchCount < 3\<close>; any other non-blank line is appended to the current section.
\<close>

record section_scan =
  bestSection :: string
  bestMatchCount :: nat
  currentSection :: string

definition section_start :: section_scan where
  "section_start = \<lparr>bestSection = [], bestMatchCount = 0, currentSection = []\<rparr>"

definition is_section_line :: "string \<Rightarrow> bool" where
  "is_section_line line = (is_header line \<or> startsWith line ''==='')"

text \<open>\<open>messageWords.filter(word => currentSection.toLowerCase().includes(word)).length\<close>\<close>

definition matchCount :: "string list \<Rightarrow> string \<Rightarrow> nat" where
  "matchCount messageWords sect =
     length (filter (\<lambda>word. str_includes (toLowerCase sect) word) messageWords)"

definition section_step :: "string list \<Rightarrow> section_scan \<Rightarrow> string \<Rightarrow> section_scan" where
  "section_step messageWords st line =
     (if is_section_line line then
        (if currentSection st \<noteq> [] \<and> bestMatchCount st < 3 \<and>
            matchCount messageWords (currentSection st) > bestMatchCount st
         then \<lparr>bestSection = currentSection st,
               bestMatchCount = matchCount messageWords (currentSection st),
               currentSection = line @ [CHR 0x0A]\<rparr>
         else st\<lparr>currentSection := line @ [CHR 0x0A]\<rparr>)
      else if trim line \<noteq> [] then st\<lparr>currentSection := currentSection st @ line @ [CHR 0x0A]\<rparr>
      else st)"

definition section_loop :: "string list \<Rightarrow> section_scan \<Rightarrow> string list \<Rightarrow> section_scan" where
  "section_loop messageWords st lines = foldl (section_step messageWords) st lines"

text \<open>\<open>message.split(/\s+/).filter(w => w.length > 3)\<close>\<close>

definition long_words :: "string \<Rightarrow> string list" where
  "long_words message = filter (\<lambda>w. length w > 3) (split_runs isSpace message)"

definition isSentenceEnd :: "char \<Rightarrow> bool" where
  "isSentenceEnd c = (c = CHR ''.'' \<or> c = CHR ''!'' \<or> c = CHR ''?'')"

text \<open>
  \<open>text.split(/[.!?]+/).filter(s => s.trim().length > n).slice(0, k).join('. ').trim() + '.'\<close>
\<close>

definition first_sentences :: "nat \<Rightarrow> nat \<Rightarrow> string \<Rightarrow> string" where
  "first_sentences n k txt =
     trim (join ''. '' (take k (filter (\<lambda>s. length (trim s) > n) (split_runs isSentenceEnd txt))))
     @ ''.''"

definition section_fallback :: "string \<Rightarrow> string list \<Rightarrow> string option" where
  "section_fallback message lines =
     (let st = section_loop (long_words message) section_start lines
      in if bestSection st \<noteq> [] \<and> bestMatchCount st > 0
         then Some (first_sentences 20 3 (bestSection st))
         else None)"

section \<open>Answer extraction: the last two stages and the chain (getAnswerFromData)\<close>

text \<open>\<open>dataContent.split(/\n\n+/)\<close>: a run of two or more line feeds separates.\<close>

function split_paragraphs :: "string \<Rightarrow> string list" where
  "split_paragraphs [] = [[]]"
| "split_paragraphs (c # cs) =
     (if c = CHR 0x0A \<and> cs \<noteq> [] \<and> hd cs = CHR 0x0A
      then [] # split_paragraphs (dropWhile (\<lambda>x. x = CHR 0x0A) cs)
      else (case split_paragraphs cs of
              [] \<Rightarrow> [[c]]
            | w # ws \<Rightarrow> (c # w) # ws))"
  by pat_completeness auto
termination
  by (relation "measure length") (auto simp: le_imp_less_Suc length_dropWhile_le)

record para_scan =
  bestPara :: string
  bestParaMatches :: nat

definition para_step :: "string list \<Rightarrow> para_scan \<Rightarrow> string \<Rightarrow> para_scan" where
  "para_step messageWords st para =
     (let count = length (filter (\<lambda>word. length word > 3 \<and> str_includes (toLowerCase para) word)
                            messageWords)
      in if count > bestParaMatches st then \<lparr>bestPara = para, bestParaMatches = count\<rparr> else st)"

definition paragraph_fallback :: "string \<Rightarrow> string \<Rightarrow> string option" where
  "paragraph_fallback message dataContent =
     (let paragraphs = filter (\<lambda>p. length (trim p) > 50) (split_paragraphs dataContent);
          st = foldl (para_step (long_words message)) \<lparr>bestPara = [], bestParaMatches = 0\<rparr> paragraphs
      in if bestPara st \<noteq> [] \<and> bestParaMatches st > 0
         then Some (first_sentences 15 2 (bestPara st))
         else None)"

text \<open>
  \<open>dataContent.match(/ORDER HISTORY:[\s\S]*?(?=\n[A-Z]|$)/)\<close>: from the first occurrence of
  the label, the shortest text that is followed by a line feed and a capital, or by the
  end of the string.
\<close>

fun lazy_until_capital_line :: "string \<Rightarrow> string" where
  "lazy_until_capital_line [] = []"
| "lazy_until_capital_line (c # cs) =
     (if c = CHR 0x0A \<and> cs \<noteq> [] \<and> isUpper (hd cs) then []
      else c # lazy_until_capital_line cs)"

fun after_first :: "string \<Rightarrow> string \<Rightarrow> string option" where
  "after_first pat [] = (if pat = [] then Some [] else None)"
| "after_first pat (c # cs) =
     (if prefix pat (c # cs) then Some (drop (length pat) (c # cs)) else after_first pat cs)"

definition order_history :: "string \<Rightarrow> string option" where
  "order_history dataContent =
     (if str_includes dataContent ''ORDER HISTORY'' then
        (case after_first ''ORDER HISTORY:'' dataContent of
           None \<Rightarrow> None
         | Some rest \<Rightarrow>
             Some (trim (join '' '' (take 3 (split_char (CHR 0x0A)
                     (trim (lazy_until_capital_line rest)))))))
      else None)"

text \<open>
  The chain: the first stage that returns wins. \<open>None\<close> is the \<open>null\<close> of the source; the
  last stage can return the empty string, which the callers treat as no answer.
\<close>

definition getAnswerFromData :: "string \<Rightarrow> string \<Rightarrow> string option" where
  "getAnswerFromData userMessage dataContent =
     (if dataContent = [] then None
      else
        (let message = toLowerCase userMessage;
             lines = split_char (CHR 0x0A) dataContent
         in case product_matcher message lines of
              Some response \<Rightarrow> Some response
            | None \<Rightarrow>
                (case qa_scorer message lines of
                   Some a \<Rightarrow> Some a
                 | None \<Rightarrow>
                     (case section_fallback message lines of
                        Some s \<Rightarrow> Some s
                      | None \<Rightarrow>
                          (case paragraph_fallback message dataContent of
                             Some s \<Rightarrow> Some s
                           | None \<Rightarrow> order_history dataContent)))))"

section \<open>The response composer (getDataFromFile, getImprovedMockResponse)\<close>

text \<open>
  The directory \<open>data\<close> is a map from file names to contents; a file that is absent or
  cannot be read is \<open>None\<close>, which is the \<open>null\<close> that \<open>getDataFromFile\<close> returns for it.
\<close>

type_synonym data_dir = "string \<Rightarrow> string option"

definition topic_file :: "string \<Rightarrow> string option" where
  "topic_file topic =
     (if topic = ''returns'' \<or> topic = ''return'' \<or> topic = ''refund'' then Some ''returns.txt''
      else if topic = ''shipping'' \<or> topic = ''ship'' \<or> topic = ''delivery'' then Some ''shipping.txt''
      else if topic = ''payment'' \<or> topic = ''pay'' \<or> topic = ''billing'' then Some ''payments.txt''
      else if topic = ''order'' \<or> topic = ''orders'' \<or> topic = ''tracking'' then Some ''orders.txt''
      else if topic = ''warranty'' \<or> topic = ''warranties'' then Some ''warranty.txt''
      else None)"

definition getDataFromFile :: "data_dir \<Rightarrow> string \<Rightarrow> string option" where
  "getDataFromFile dir topic =
     (case topic_file topic of
        None \<Rightarrow> None
      | Some fileName \<Rightarrow> dir fileName)"

text \<open>The file that a call of \<open>getDataFromFile\<close> looks for, if any.\<close>

definition file_access :: "string \<Rightarrow> string list" where
  "file_access topic = (case topic_file topic of None \<Rightarrow> [] | Some fileName \<Rightarrow> [fileName])"

text \<open>The fixed replies.\<close>

definition GREETING_REPLY :: string where
  "GREETING_REPLY = ''Hello! I'' @ [CHR 0x27] @ ''m here to help you with returns, shipping, payments, and orders. How can I assist you today?''"

definition HOW_ARE_YOU_REPLY :: string where
  "HOW_ARE_YOU_REPLY = ''I'' @ [CHR 0x27] @ ''m doing great, thank you for asking! I'' @ [CHR 0x27] @ ''m here and ready to help you with any questions about returns, shipping, payments, or orders. What can I do for you today?''"

definition RETURNS_REPLY :: string where
  "RETURNS_REPLY = ''I can help you with returns and refunds. Items can be returned within 30 days of purchase in original condition. Would you like more details about our return policy?''"

definition SHIPPING_REPLY :: string where
  "SHIPPING_REPLY = ''Standard shipping takes 5-7 business days. Express is 2-3 days, and overnight is next business day. Free shipping available on orders over $75. Would you like more shipping information?''"

definition PAYMENTS_REPLY :: string where
  "PAYMENTS_REPLY = ''We accept all major credit cards, debit cards, PayPal, Apple Pay, and Google Pay. All payments are processed securely. Would you like more payment information?''"

definition ORDER_ID_REPLY :: string where
  "ORDER_ID_REPLY = ''You can view all your order IDs by logging into your account at www.oursite.com/my-orders. Your order history page shows all past orders with their order numbers. You can also find order IDs in your order confirmation emails.''"

definition LATEST_ORDER_REPLY :: string where
  "LATEST_ORDER_REPLY = ''To view your latest order, log into your account at www.oursite.com/my-orders. You can see all your past orders there, with the most recent orders at the top. You can also check your email for order confirmation messages.''"

definition TRACKING_REPLY :: string where
  "TRACKING_REPLY = ''You can track your order using your order number and email at www.oursite.com/my-orders. You'' @ [CHR 0x27] @ ''ll also receive email updates at each stage of your order. Login to see real-time tracking information.''"

definition CANCEL_REPLY :: string where
  "CANCEL_REPLY = ''You can cancel your order within 1 hour of placing it. After that, contact us immediately and we'' @ [CHR 0x27] @ ''ll try to help if the order hasn'' @ [CHR 0x27] @ ''t shipped yet.''"

definition ORDERS_REPLY :: string where
  "ORDERS_REPLY = ''I can help you with your orders. You can view your order history, track orders, and manage your account at www.oursite.com/my-orders. What specific information do you need about your order?''"

definition HELP_REPLY :: string where
  "HELP_REPLY = ''I'' @ [CHR 0x27] @ ''d be happy to help! I can assist you with returns, shipping, payments, and orders. What would you like to know about?''"

definition THANKS_REPLY :: string where
  "THANKS_REPLY = ''You'' @ [CHR 0x27] @ ''re very welcome! Is there anything else I can help you with today?''"

definition GOODBYE_REPLY :: string where
  "GOODBYE_REPLY = ''Thank you for contacting us! Have a wonderful day! If you need anything else, feel free to reach out anytime.''"

definition WARRANTY_REPLY :: string where
  "WARRANTY_REPLY = ''I can help you with Samsung warranty information. All Samsung products come with a standard manufacturer'' @ [CHR 0x27] @ ''s warranty. You can register your product online through My Page for faster support. Would you like to know more about warranty periods for specific products or how to book a repair?''"

definition DEFAULT_REPLY :: string where
  "DEFAULT_REPLY = ''I'' @ [CHR 0x27] @ ''m a Samsung warranty specialist. I can help you with information about Samsung product warranties, repairs, product registration, and support services. What would you like to know?''"

text \<open>The regular expressions, in the order in which the function tests them.\<close>

definition greeting_words :: "string list" where
  "greeting_words = [''hi'', ''hello'', ''hey'', ''greetings'', ''good morning'', ''good afternoon'',
                     ''good evening'']"

definition is_greeting :: "string \<Rightarrow> bool" where
  "is_greeting message = list_ex (\<lambda>w. prefix w message) greeting_words"

definition how_are_you_re :: "pattern list" where
  "how_are_you_re = [Lit ''how are you'', Lit ''how r u'', Lit (''how'' @ [CHR 0x27] @ ''s it going''),
                     Lit ''how do you do'']"

definition returns_re :: "pattern list" where
  "returns_re = [Lit ''return'', Lit ''refund'', Lit ''exchange'', DotStar ''cancel'' ''order'']"

definition shipping_re :: "pattern list" where
  "shipping_re = [Lit ''ship'', Lit ''shipping'', Lit ''delivery'', Lit ''deliver'', Lit ''track'',
                  Lit ''tracking'', DotStar ''when'' ''arrive'', DotStar ''how long'' ''ship'']"

definition payments_re :: "pattern list" where
  "payments_re = [Lit ''pay'', Lit ''payment'', Lit ''billing'', Lit ''card'', Lit ''credit'',
                  Lit ''debit'', Lit ''paypal'', DotStar ''how'' ''pay'', Lit ''payment method'']"

definition orders_re :: "pattern list" where
  "orders_re = [Lit ''order'', Lit ''orders'', DotStar ''latest'' ''order'', DotStar ''recent'' ''order'',
                Lit ''my order'', Lit ''order history'', Lit ''order status'', DotStar ''track'' ''order'',
                DotStar ''place'' ''order'', DotStar ''view'' ''order'', Lit ''order id'', Lit ''order ids'',
                Lit ''all order'']"

definition order_id_re :: "pattern list" where
  "order_id_re = [Lit ''order id'', Lit ''order ids'', Lit ''all order'', DotStar ''get'' ''order id'']"

definition latest_order_re :: "pattern list" where
  "latest_order_re = [DotStar ''latest'' ''order'', DotStar ''recent'' ''order'', DotStar ''last'' ''order'',
                      DotStar ''newest'' ''order'']"

definition tracking_re :: "pattern list" where
  "tracking_re = [Lit ''track'', Lit ''tracking'', DotStar ''where'' ''order'', Lit ''order status'']"

definition cancel_re :: "pattern list" where
  "cancel_re = [Lit ''cancel'', Lit ''cancellation'']"

definition thanks_re :: "pattern list" where
  "thanks_re = [Lit ''thank'', Lit ''thanks'', Lit ''appreciate'']"

definition goodbye_re :: "pattern list" where
  "goodbye_re = [Lit ''bye'', Lit ''goodbye'', Lit ''see you'', Lit ''farewell'', Lit ''exit'', Lit ''quit'']"

definition warranty_re :: "pattern list" where
  "warranty_re = [Lit ''warranty'', Lit ''warranties'', Lit ''repair'', Lit ''service'', Lit ''guarantee'',
                  Lit ''coverage'', DotStar ''register'' ''product'', DotStar ''extended'' ''warranty'',
                  DotStar ''international'' ''warranty'', DotStar ''samsung'' ''warranty'', Lit ''tablet'',
                  Lit ''smartphone'', Lit ''phone'', Lit ''watch'', Lit ''buds'', Lit ''headphone'',
                  Lit ''charger'', Lit ''battery'']"

text \<open>
  What a call returns: the reply, and the files that its calls of \<open>getDataFromFile\<close>
  looked for, in order.
\<close>

record mock_response =
  reply :: string
  files_read :: "string list"

text \<open>
  The function is a sequence of guarded blocks; each block below is one of them, followed
  by the blocks after it. A topic block whose file is absent or empty falls through to
  the next block.
\<close>

definition warranty_block :: "data_dir \<Rightarrow> string \<Rightarrow> string \<Rightarrow> string list \<Rightarrow> mock_response" where
  "warranty_block dir userMessage message reads =
     (if re_match warranty_re message then
        (case getDataFromFile dir ''warranty'' of
           None \<Rightarrow> \<lparr>reply = DEFAULT_REPLY, files_read = reads @ file_access ''warranty''\<rparr>
         | Some d \<Rightarrow>
             if d = [] then \<lparr>reply = DEFAULT_REPLY, files_read = reads @ file_access ''warranty''\<rparr>
             else
               (case getAnswerFromData userMessage d of
                  None \<Rightarrow> \<lparr>reply = WARRANTY_REPLY, files_read = reads @ file_access ''warranty''\<rparr>
                | Some a \<Rightarrow>
                    if length a > 10 then \<lparr>reply = a, files_read = reads @ file_access ''warranty''\<rparr>
                    else \<lparr>reply = WARRANTY_REPLY, files_read = reads @ file_access ''warranty''\<rparr>))
      else \<lparr>reply = DEFAULT_REPLY, files_read = reads\<rparr>)"

definition canned_block :: "data_dir \<Rightarrow> string \<Rightarrow> string \<Rightarrow> string list \<Rightarrow> mock_response" where
  "canned_block dir userMessage message reads =
     (if str_includes message ''help'' then \<lparr>reply = HELP_REPLY, files_read = reads\<rparr>
      else if re_match thanks_re message then \<lparr>reply = THANKS_REPLY, files_read = reads\<rparr>
      else if re_match goodbye_re message then \<lparr>reply = GOODBYE_REPLY, files_read = reads\<rparr>
      else warranty_block dir userMessage message reads)"

text \<open>The canned replies of the orders block, tried when the extraction is not used.\<close>

definition order_canned :: "string \<Rightarrow> string" where
  "order_canned message =
     (if re_match order_id_re message then ORDER_ID_REPLY
      else if re_match latest_order_re message then LATEST_ORDER_REPLY
      else if re_match tracking_re message then TRACKING_REPLY
      else if re_match cancel_re message then CANCEL_REPLY
      else ORDERS_REPLY)"

definition orders_block :: "data_dir \<Rightarrow> string \<Rightarrow> string \<Rightarrow> string list \<Rightarrow> mock_response" where
  "orders_block dir userMessage message reads =
     (if re_match orders_re message then
        (case getDataFromFile dir ''orders'' of
           None \<Rightarrow> canned_block dir userMessage message (reads @ file_access ''orders'')
         | Some d \<Rightarrow>
             if d = [] then canned_block dir userMessage message (reads @ file_access ''orders'')
             else
               (case getAnswerFromData userMessage d of
                  None \<Rightarrow> \<lparr>reply = order_canned message, files_read = reads @ file_access ''orders''\<rparr>
                | Some a \<Rightarrow>
                    if length a > 30 then \<lparr>reply = a, files_read = reads @ file_access ''orders''\<rparr>
                    else \<lparr>reply = order_canned message, files_read = reads @ file_access ''orders''\<rparr>))
      else canned_block dir userMessage message reads)"

text \<open>
  The three blocks for returns, shipping and payments have one shape: the extraction is
  returned when it is a non-empty string, the block's fixed reply otherwise.
\<close>

definition topic_answer :: "string \<Rightarrow> string \<Rightarrow> string \<Rightarrow> string" where
  "topic_answer userMessage d fallback =
     (case getAnswerFromData userMessage d of
        None \<Rightarrow> fallback
      | Some a \<Rightarrow> if a \<noteq> [] then a else fallback)"

definition payments_block :: "data_dir \<Rightarrow> string \<Rightarrow> string \<Rightarrow> string list \<Rightarrow> mock_response" where
  "payments_block dir userMessage message reads =
     (if re_match payments_re message then
        (case getDataFromFile dir ''payments'' of
           None \<Rightarrow> orders_block dir userMessage message (reads @ file_access ''payments'')
         | Some d \<Rightarrow>
             if d = [] then orders_block dir userMessage message (reads @ file_access ''payments'')
             else \<lparr>reply = topic_answer userMessage d PAYMENTS_REPLY,
                   files_read = reads @ file_access ''payments''\<rparr>)
      else orders_block dir userMessage message reads)"

definition shipping_block :: "data_dir \<Rightarrow> string \<Rightarrow> string \<Rightarrow> string list \<Rightarrow> mock_response" where
  "shipping_block dir userMessage message reads =
     (if re_match shipping_re message then
        (case getDataFromFile dir ''shipping'' of
           None \<Rightarrow> payments_block dir userMessage message (reads @ file_access ''shipping'')
         | Some d \<Rightarrow>
             if d = [] then payments_block dir userMessage message (reads @ file_access ''shipping'')
             else \<lparr>reply = topic_answer userMessage d SHIPPING_REPLY,
                   files_read = reads @ file_access ''shipping''\<rparr>)
      else payments_block dir userMessage message reads)"

definition returns_block :: "data_dir \<Rightarrow> string \<Rightarrow> string \<Rightarrow> string list \<Rightarrow> mock_response" where
  "returns_block dir userMessage message reads =
     (if re_match returns_re message then
        (case getDataFromFile dir ''returns'' of
           None \<Rightarrow> shipping_block dir userMessage message (reads @ file_access ''returns'')
         | Some d \<Rightarrow>
             if d = [] then shipping_block dir userMessage message (reads @ file_access ''returns'')
             else \<lparr>reply = topic_answer userMessage d RETURNS_REPLY,
                   files_read = reads @ file_access ''returns''\<rparr>)
      else shipping_block dir userMessage message reads)"

definition getImprovedMockResponse :: "data_dir \<Rightarrow> string \<Rightarrow> mock_response" where
  "getImprovedMockResponse dir userMessage =
     (let message = trim (toLowerCase userMessage) in
      if is_greeting message then \<lparr>reply = GREETING_REPLY, files_read = []\<rparr>
      else if re_match how_are_you_re message then \<lparr>reply = HOW_ARE_YOU_REPLY, files_read = []\<rparr>
      else returns_block dir userMessage message [])"

section \<open>The generative responder (getHuggingFaceResponse)\<close>

text \<open>
  What the function reads of one HTTP exchange: \<open>fetch\<close> rejects, or there is a response
  with a status and a body. Of the body it reads the number \<open>estimated_time\<close> and the
  string \<open>generated_text\<close> (of the object, or of the first element of the array); a body
  for which \<open>response.json()\<close> rejects, or which is \<open>null\<close>, is \<open>None\<close>: reading a field of
  it throws, and the \<open>catch\<close> answers with the mock response.
\<close>

record hf_json =
  estimated_time :: "rat option"
  generated_text :: "string option"

datatype hf_response = FetchRejected | Response nat "hf_json option"

text \<open>The remote service, as the response it gives to the request number \<open>n\<close>.\<close>

type_synonym hf_service = "nat \<Rightarrow> hf_response"

definition always :: "hf_response \<Rightarrow> hf_service" where
  "always r n = r"

definition responses_then :: "hf_response list \<Rightarrow> hf_response \<Rightarrow> hf_service" where
  "responses_then rs r n = (if n < length rs then rs ! n else r)"

record hf_outcome =
  hf_reply :: string
  requests :: nat

definition hf_prompt :: "string \<Rightarrow> string" where
  "hf_prompt userMessage =
     ''You are a helpful customer service assistant. User: '' @ userMessage @ [CHR 0x0A]
     @ ''Assistant:''"

text \<open>\<open>response.ok\<close>\<close>

definition response_ok :: "nat \<Rightarrow> bool" where
  "response_ok status = (200 \<le> status \<and> status \<le> 299)"

text \<open>
  The part of the body after \<open>const data = await response.json()\<close> on a successful
  response: the generated text, trimmed, without the prompt, when it has more than five
  characters; \<open>None\<close> stands for the fall-back to the mock response.
\<close>

definition generated_reply :: "string \<Rightarrow> hf_json \<Rightarrow> string option" where
  "generated_reply userMessage d =
     (case generated_text d of
        None \<Rightarrow> None
      | Some g \<Rightarrow>
          if g = [] \<or> trim g = [] then None
          else
            (let generatedText = trim (replace_first (hf_prompt userMessage) [] (trim g))
             in if length generatedText > 5 then Some generatedText else None))"

text \<open>
  The function, with the number \<open>n\<close> of requests sent before the call made explicit. The only
  recursive call is the retry after the timed wait; a call that never returns is \<open>None\<close>.
\<close>

partial_function (option) getHuggingFaceResponse ::
  "data_dir \<Rightarrow> hf_service \<Rightarrow> string \<Rightarrow> nat \<Rightarrow> hf_outcome option" where
  "getHuggingFaceResponse dir service userMessage n =
     (case service n of
        FetchRejected \<Rightarrow>
          Some \<lparr>hf_reply = reply (getImprovedMockResponse dir userMessage), requests = Suc n\<rparr>
      | Response status body \<Rightarrow>
          if \<not> response_ok status then
            (if status = 503 then
               (case body of
                  None \<Rightarrow>
                    Some \<lparr>hf_reply = reply (getImprovedMockResponse dir userMessage),
                          requests = Suc n\<rparr>
                | Some d \<Rightarrow>
                    (case estimated_time d of
                       None \<Rightarrow>
                         Some \<lparr>hf_reply = reply (getImprovedMockResponse dir userMessage),
                               requests = Suc n\<rparr>
                     | Some seconds \<Rightarrow>
                         if seconds \<noteq> 0
                         then getHuggingFaceResponse dir service userMessage (Suc n)
                         else Some \<lparr>hf_reply = reply (getImprovedMockResponse dir userMessage),
                                    requests = Suc n\<rparr>))
             else Some \<lparr>hf_reply = reply (getImprovedMockResponse dir userMessage),
                        requests = Suc n\<rparr>)
          else
            (case body of
               None \<Rightarrow>
                 Some \<lparr>hf_reply = reply (getImprovedMockResponse dir userMessage),
                       requests = Suc n\<rparr>
             | Some d \<Rightarrow>
                 (case generated_reply userMessage d of
                    Some generatedText \<Rightarrow> Some \<lparr>hf_reply = generatedText, requests = Suc n\<rparr>
                  | None \<Rightarrow>
                      Some \<lparr>hf_reply = reply (getImprovedMockResponse dir userMessage),
                            requests = Suc n\<rparr>)))"

text \<open>
  The response on which the function calls itself: status 503 with a body whose
  \<open>estimated_time\<close> is a non-zero number.
\<close>

definition warming_up :: "hf_response \<Rightarrow> bool" where
  "warming_up r =
     (case r of
        FetchRejected \<Rightarrow> False
      | Response status body \<Rightarrow>
          status = 503 \<and>
          (case body of
             None \<Rightarrow> False
           | Some d \<Rightarrow> (case estimated_time d of None \<Rightarrow> False | Some seconds \<Rightarrow> seconds \<noteq> 0)))"

text \<open>The reply to any other response.\<close>

definition settled_reply :: "data_dir \<Rightarrow> string \<Rightarrow> hf_response \<Rightarrow> string" where
  "settled_reply dir userMessage r =
     (case r of
        FetchRejected \<Rightarrow> reply (getImprovedMockResponse dir userMessage)
      | Response status body \<Rightarrow>
          if response_ok status then
            (case body of
               None \<Rightarrow> reply (getImprovedMockResponse dir userMessage)
             | Some d \<Rightarrow>
                 (case generated_reply userMessage d of
                    Some generatedText \<Rightarrow> generatedText
                  | None \<Rightarrow> reply (getImprovedMockResponse dir userMessage)))
          else reply (getImprovedMockResponse dir userMessage))"

section \<open>The live source fetcher (backend/scraper.js, fetchWarrantyFromWebsite)\<close>

text \<open>
  The page is what the two selector loops read of it. For an element of
  \<open>strong, h3, h4, li, p\<close>: its text, the text of its parent and the text of its next
  sibling. For an element of \<open>button, [role="button"], h2, h3\<close>: its text, and the texts of
  its next sibling and of its parent's next sibling, each \<open>None\<close> when there is no such
  element.
\<close>

record product_node =
  node_text :: string
  parent_text :: string
  next_text :: string

record faq_node =
  faq_text :: string
  faq_next :: "string option"
  faq_parent_next :: "string option"

record page =
  product_nodes :: "product_node list"
  faq_nodes :: "faq_node list"

definition nl :: string where
  "nl = [CHR 0x0A]"

definition three_services :: "string list" where
  "three_services = [''In-store repair'', ''Pick up repair'', ''Doorstep repair'']"

definition two_services :: "string list" where
  "two_services = [''In-store repair'', ''Pick up repair'']"

text \<open>The table \<open>productWarrantyMap\<close>, in the order of its entries.\<close>

definition productWarrantyMap :: "(string \<times> string \<times> string list) list" where
  "productWarrantyMap =
     [(''smartphone'', ''24 Months'', three_services),
      (''tablet'', ''24 Months'', three_services),
      (''galaxy buds'', ''12 Months'', two_services),
      (''wireless headphones'', ''12 Months'', two_services),
      (''galaxy watch'', ''24 Months'', three_services),
      (''gear smart watch'', ''24 Months'', three_services),
      (''galaxy ring'', ''12 Months'', [''Pick up repair'']),
      (''charger'', ''12 Months'', two_services),
      (''battery'', ''12 Months'', two_services),
      (''wired headphones'', ''12 Months'', two_services),
      (''watch strap'', ''6 Months'', two_services),
      (''s pen'', ''12 Months'', two_services),
      (''cooker hood'', ''24 Months'', three_services),
      (''hood'', ''24 Months'', three_services),
      (''robotic vacuum cleaners'', ''24 Months'', three_services),
      (''robotic vacuum'', ''24 Months'', three_services),
      (''vacuum cleaners'', ''24 Months'', three_services),
      (''vacuum cleaner'', ''24 Months'', three_services),
      (''large format display'', ''36 Months'', three_services),
      (''set back box'', ''36 Months'', three_services),
      (''sbb'', ''36 Months'', three_services),
      (''monitor'', ''24 Months'', three_services),
      (''monitor for consumers'', ''24 Months'', three_services),
      (''oled monitor'', ''24 Months'', three_services),
      (''oled monitor for consumers'', ''24 Months'', three_services)]"

text \<open>The four lines written for one product, under the header line \<open>name\<close>.\<close>

definition warranty_entry :: "string \<Rightarrow> string \<Rightarrow> string list \<Rightarrow> string" where
  "warranty_entry name period services =
     name @ '':'' @ nl
     @ ''- Warranty period: '' @ period @ nl
     @ ''- Warranty service offered: Our Samsung Authorised Service Partners offer both In and Out of warranty repairs.'' @ nl
     @ ''- Repair services available: '' @ join '', '' services @ nl @ nl"

text \<open>
  What one element of the first loop appends: the record of the first product key that its
  lower-cased text contains, provided the texts around it mention \<open>warranty period\<close> or
  \<open>months\<close>; otherwise nothing.
\<close>

definition node_record :: "product_node \<Rightarrow> string" where
  "node_record node =
     (let textLower = toLowerCase (trim (node_text node));
          combinedText = toLowerCase (toLowerCase (parent_text node) @ '' '' @ toLowerCase (next_text node))
      in if str_includes combinedText ''warranty period'' \<or> str_includes combinedText ''months'' then
           (case find (\<lambda>(productKey, warrantyData). str_includes textLower productKey)
                   productWarrantyMap of
              None \<Rightarrow> []
            | Some (productKey, period, services) \<Rightarrow>
                warranty_entry (toUpperCase productKey) period services)
         else [])"

definition product_records :: "product_node list \<Rightarrow> string" where
  "product_records nodes = concat (map node_record nodes)"

text \<open>The number of records that the first loop recognized.\<close>

definition records_found :: "product_node list \<Rightarrow> nat" where
  "records_found nodes = length (filter (\<lambda>node. node_record node \<noteq> []) nodes)"

definition warranty_intro :: string where
  "warranty_intro =
     ''SAMSUNG WARRANTY INFORMATION - COMPREHENSIVE GUIDE'' @ nl @ nl
     @ ''=== STANDARD WARRANTY ==='' @ nl
     @ ''All Samsung products come with a standard manufacturer'' @ [CHR 0x27] @ ''s warranty.'' @ nl @ nl
     @ ''=== MOBILE DEVICES WARRANTY ==='' @ nl @ nl"

text \<open>The hard-coded catalog of the \<open>if\<close> after the first loop.\<close>

definition known_catalog :: string where
  "known_catalog =
     ''=== HOME APPLIANCES WARRANTY ==='' @ nl @ nl
     @ warranty_entry ''COOKER HOOD'' ''24 Months'' three_services
     @ warranty_entry ''ROBOTIC VACUUM CLEANERS'' ''24 Months'' three_services
     @ warranty_entry ''VACUUM CLEANERS'' ''24 Months'' three_services
     @ ''=== MOBILE DEVICES WARRANTY ==='' @ nl @ nl
     @ warranty_entry ''SMARTPHONE (including Certified Re-Newed model)'' ''24 Months'' three_services
     @ warranty_entry ''TABLET'' ''24 Months'' three_services
     @ warranty_entry ''GALAXY BUDS AND WIRELESS HEADPHONES'' ''12 Months'' two_services
     @ warranty_entry ''GALAXY AND GEAR SMART WATCH'' ''24 Months'' three_services
     @ warranty_entry ''GALAXY RING'' ''12 Months'' [''Pick up repair'']
     @ ''=== DISPLAY PRODUCTS WARRANTY ==='' @ nl @ nl
     @ warranty_entry ''LARGE FORMAT DISPLAY'' ''36 Months'' three_services
     @ warranty_entry ''SET BACK BOX - SBB'' ''36 Months'' three_services
     @ warranty_entry ''MONITOR (FOR CONSUMERS)'' ''24 Months'' three_services
     @ warranty_entry ''OLED MONITOR (FOR CONSUMERS)'' ''24 Months'' three_services"

text \<open>
  The test that guards the catalog:
  \<open>!warrantyInfo.includes('SMARTPHONE:') && !warrantyInfo.includes('COOKER HOOD:')\<close>.
\<close>

definition needs_catalog :: "string \<Rightarrow> bool" where
  "needs_catalog warrantyInfo =
     (\<not> str_includes warrantyInfo ''SMARTPHONE:'' \<and> \<not> str_includes warrantyInfo ''COOKER HOOD:'')"

text \<open>The second loop: the elements that look like a question and have an answer nearby.\<close>

definition looks_like_question :: "string \<Rightarrow> bool" where
  "looks_like_question txt =
     (let textLower = toLowerCase txt
      in length txt > 10 \<and> length txt < 200 \<and>
         (str_includes textLower ''?'' \<or> str_includes textLower ''can i'' \<or>
          str_includes textLower ''what'' \<or> str_includes textLower ''how'' \<or>
          str_includes textLower ''which'' \<or> str_includes textLower ''does'' \<or>
          str_includes textLower ''will''))"

definition answer_candidate :: "string option \<Rightarrow> string" where
  "answer_candidate sibling =
     (case sibling of
        None \<Rightarrow> []
      | Some raw \<Rightarrow> if length (trim raw) > 20 \<and> length (trim raw) < 1000 then trim raw else [])"

definition faq_of :: "faq_node \<Rightarrow> (string \<times> string) option" where
  "faq_of node =
     (let txt = trim (faq_text node) in
      if looks_like_question txt then
        (let answer1 = answer_candidate (faq_next node);
             answer2 = (if answer1 = [] then answer_candidate (faq_parent_next node) else answer1)
         in if answer2 \<noteq> [] then Some (txt, answer2) else None)
      else None)"

definition faq_section :: "faq_node list \<Rightarrow> string" where
  "faq_section nodes =
     concat (map (\<lambda>(q, a). ''Q: '' @ q @ nl @ ''A: '' @ a @ nl @ nl)
               (take 20 (List.map_filter faq_of nodes)))"

definition warranty_outro :: string where
  "warranty_outro =
     ''=== GENERAL WARRANTY INFORMATION ==='' @ nl
     @ ''To obtain warranty service, the original proof of purchase will be required and the serial number affixed to the product must be complete and undamaged.'' @ nl
     @ ''The warranty covers defects in materials and workmanship.'' @ nl
     @ ''You can register your Samsung product online through My Page to receive faster support.'' @ nl @ nl
     @ ''=== TROUBLESHOOTING AND REPAIRS ==='' @ nl
     @ ''Need help with your product? Try our online troubleshooter to resolve the problem. If it hasn'' @ [CHR 0x27] @ ''t solved the issue you'' @ [CHR 0x27] @ ''re experiencing, you can book a repair online too.'' @ nl @ nl
     @ ''=== CONTACT INFORMATION ==='' @ nl
     @ ''For support buying a product, help with an order or technical product support, please contact Samsung using the details in the Contact Us section.'' @ nl
     @ ''Troubleshoot and book a repair: https://www.samsung.com/uk/support/repair/'' @ nl
     @ ''Contact us: https://www.samsung.com/uk/support/contact/'' @ nl"

text \<open>
  The function: a failed request or parse is rethrown; otherwise the text is put together
  in the order of the source.
\<close>

definition fetchWarrantyFromWebsite :: "fetch_error + page \<Rightarrow> fetch_error + string" where
  "fetchWarrantyFromWebsite response =
     (case response of
        Inl err \<Rightarrow> Inl err
      | Inr pg \<Rightarrow>
          (let warrantyInfo = warranty_intro @ product_records (product_nodes pg)
           in Inr (warrantyInfo
                   @ (if needs_catalog warrantyInfo then known_catalog else [])
                   @ ''=== WARRANTY FAQs ==='' @ nl @ nl
                   @ faq_section (faq_nodes pg)
                   @ warranty_outro)))"

section \<open>Properties of the cache\<close>

lemma cache_valid_entry:
  "cache_valid now \<lparr>data = Some d, timestamp = Some t\<rparr> \<longleftrightarrow>
     d \<noteq> [] \<and> t \<noteq> 0 \<and> now - t < CACHE_DURATION"
  by (simp add: cache_valid_def)

lemma get_valid:
  "cache_valid now c \<Longrightarrow>
     getWarrantyWithCache now live fb c =
       \<lparr>result = Inr (the (data c)), cache_after = c, fetch_calls = 0\<rparr>"
  by (simp add: getWarrantyWithCache_def)





lemma get_calls_fresh:
  assumes "d \<noteq> []" and "t \<noteq> 0"
    and "\<forall>call \<in> set calls. fst call - t < CACHE_DURATION"
  shows "\<forall>out \<in> set (get_calls calls \<lparr>data = Some d, timestamp = Some t\<rparr>).
           out = \<lparr>result = Inr d, cache_after = \<lparr>data = Some d, timestamp = Some t\<rparr>,
                  fetch_calls = 0\<rparr>"
  using assms(3)
proof (induction calls)
  case Nil
  show ?case by simp
next
  case (Cons call calls)
  obtain now live fb where call: "call = (now, live, fb)"
    by (cases call) auto
  from Cons.prems call have "now - t < CACHE_DURATION"
    by simp
  with assms(1,2) have "cache_valid now \<lparr>data = Some d, timestamp = Some t\<rparr>"
    by (simp add: cache_valid_entry)
  from get_valid [OF this]
  have out: "getWarrantyWithCache now live fb \<lparr>data = Some d, timestamp = Some t\<rparr> =
      \<lparr>result = Inr d, cache_after = \<lparr>data = Some d, timestamp = Some t\<rparr>, fetch_calls = 0\<rparr>"
    by simp
  from Cons.prems have "\<forall>call \<in> set calls. fst call - t < CACHE_DURATION"
    by simp
  from Cons.IH [OF this] out call show ?case
    by simp
qed

lemma get_throws_iff:
  "isl (result (getWarrantyWithCache now live fb c)) \<longleftrightarrow>
     \<not> cache_valid now c \<and> isl live \<and> (fb = Missing \<or> fb = Unreadable)"
  by (simp add: getWarrantyWithCache_def split: sum.splits fallback_file.splits)

lemma get_fallback:
  "\<not> cache_valid now c \<Longrightarrow>
     getWarrantyWithCache now (Inl e) (Content d) c =
       \<lparr>result = Inr d, cache_after = \<lparr>data = Some d, timestamp = Some now\<rparr>, fetch_calls = 1\<rparr>"
  by (simp add: getWarrantyWithCache_def)

text \<open>
  C4 (as amended). A call throws exactly when the entry is not fresh (so the live fetch
  is attempted), the live fetch fails and the fallback file is missing or cannot be
  read. When the entry is not fresh, the live fetch fails and the file has the content
  \<open>d\<close>, the call returns \<open>d\<close> and stores it with the time stamp \<open>now\<close>; if moreover \<open>d\<close> is
  not empty and \<open>now\<close> is not zero, every later call whose clock is within
  \<open>CACHE_DURATION\<close> of \<open>now\<close> returns \<open>d\<close> without error, without calling the live
  fetcher and without changing the cache, whatever the live source and the file do then.
\<close>

theorem cache_fallback:
  "(isl (result (getWarrantyWithCache now live fb c)) \<longleftrightarrow>
      \<not> cache_valid now c \<and> isl live \<and> (fb = Missing \<or> fb = Unreadable))
   \<and> (\<not> cache_valid now c \<longrightarrow>
        getWarrantyWithCache now (Inl e) (Content d) c =
          \<lparr>result = Inr d, cache_after = \<lparr>data = Some d, timestamp = Some now\<rparr>,
           fetch_calls = 1\<rparr>
        \<and> (d \<noteq> [] \<and> now \<noteq> 0 \<and> (\<forall>call \<in> set calls. fst call - now < CACHE_DURATION) \<longrightarrow>
             (\<forall>out \<in> set (get_calls calls \<lparr>data = Some d, timestamp = Some now\<rparr>).
                out = \<lparr>result = Inr d, cache_after = \<lparr>data = Some d, timestamp = Some now\<rparr>,
                       fetch_calls = 0\<rparr>)))"
  using get_throws_iff [of now live fb c] get_fallback [of now c e d]
    get_calls_fresh [of d now calls]
  by blast

theorem cache_fallback_witness:
  "\<not> cache_valid 5000 emptyCache
   \<and> ''TABLET:'' \<noteq> [] \<and> (5000::int) \<noteq> 0
   \<and> (6000::int) - 5000 < CACHE_DURATION \<and> (3604999::int) - 5000 < CACHE_DURATION
   \<and> getWarrantyWithCache 5000 (Inl (FetchError ''down'')) (Content ''TABLET:'') emptyCache =
       \<lparr>result = Inr ''TABLET:'',
        cache_after = \<lparr>data = Some ''TABLET:'', timestamp = Some 5000\<rparr>, fetch_calls = 1\<rparr>
   \<and> get_calls [(6000, Inl (FetchError ''down''), Missing),
                (3604999, Inl (FetchError ''down''), Unreadable)]
         \<lparr>data = Some ''TABLET:'', timestamp = Some 5000\<rparr> =
       [\<lparr>result = Inr ''TABLET:'',
         cache_after = \<lparr>data = Some ''TABLET:'', timestamp = Some 5000\<rparr>, fetch_calls = 0\<rparr>,
        \<lparr>result = Inr ''TABLET:'',
         cache_after = \<lparr>data = Some ''TABLET:'', timestamp = Some 5000\<rparr>, fetch_calls = 0\<rparr>]"
  using cache_fallback [of 5000 "Inl (FetchError ''down'')" "Content ''TABLET:''" emptyCache
      "FetchError ''down''" "''TABLET:''"
      "[(6000, Inl (FetchError ''down''), Missing),
        (3604999, Inl (FetchError ''down''), Unreadable)]"]
  by (simp add: cache_valid_def emptyCache_def CACHE_DURATION_def Let_def
      getWarrantyWithCache_def)

text \<open>
  The claim as stated fails when the fallback file exists and is empty: the first call
  returns its (empty) content and stores it, and the next call, one millisecond later and
  with the live source still down, attempts the live fetch again.
\<close>

theorem cache_fallback_counterexample:
  "getWarrantyWithCache 1000 (Inl (FetchError ''down'')) (Content '''') emptyCache =
     \<lparr>result = Inr '''', cache_after = \<lparr>data = Some '''', timestamp = Some 1000\<rparr>,
      fetch_calls = 1\<rparr>
   \<and> 1001 - 1000 < CACHE_DURATION
   \<and> getWarrantyWithCache 1001 (Inl (FetchError ''down'')) (Content '''')
        \<lparr>data = Some '''', timestamp = Some 1000\<rparr> =
     \<lparr>result = Inr '''', cache_after = \<lparr>data = Some '''', timestamp = Some 1001\<rparr>,
      fetch_calls = 1\<rparr>"
  by (simp add: getWarrantyWithCache_def cache_valid_def emptyCache_def CACHE_DURATION_def)

section \<open>Properties of the section fallback\<close>

lemma section_loop_Nil: "section_loop ws st [] = st"
  by (simp add: section_loop_def)

lemma section_loop_Cons:
  "section_loop ws st (line # lines) = section_loop ws (section_step ws st line) lines"
  by (simp add: section_loop_def)

lemma section_loop_append:
  "section_loop ws st (xs @ ys) = section_loop ws (section_loop ws st xs) ys"
  by (simp add: section_loop_def)

lemma section_step_frozen:
  "3 \<le> bestMatchCount st \<Longrightarrow>
     bestSection (section_step ws st line) = bestSection st \<and>
     bestMatchCount (section_step ws st line) = bestMatchCount st"
  by (simp add: section_step_def)

lemma section_loop_frozen:
  "3 \<le> bestMatchCount st \<Longrightarrow>
     bestSection (section_loop ws st lines) = bestSection st \<and>
     bestMatchCount (section_loop ws st lines) = bestMatchCount st"
proof (induction lines arbitrary: st)
  case Nil
  show ?case by (simp add: section_loop_Nil)
next
  case (Cons line lines)
  from section_step_frozen [OF Cons.prems, of ws line]
  have step: "bestSection (section_step ws st line) = bestSection st"
    "bestMatchCount (section_step ws st line) = bestMatchCount st"
    by simp_all
  with Cons.prems have "3 \<le> bestMatchCount (section_step ws st line)"
    by simp
  from Cons.IH [OF this] step show ?case
    by (simp add: section_loop_Cons)
qed

lemma section_step_scores:
  assumes "is_section_line h" and "currentSection st \<noteq> []"
    and "3 \<le> matchCount ws (currentSection st)"
  shows "3 \<le> bestMatchCount (section_step ws st h)"
  using assms by (simp add: section_step_def)

text \<open>
  C7. In the scan of the section fallback, let the section collected at the end of the
  lines \<open>pre\<close> be non-empty and contain at least three of the query words, and let \<open>h\<close> be
  the header (or \<open>===\<close>) line that closes it. Then the best count is at least 3 from
  there on, and whatever lines \<open>post\<close> follow, the winning section and the best count at
  the end of the document are those reached right after \<open>h\<close>: no later section becomes
  the winner, however many query words it contains.
\<close>

theorem section_cutoff:
  assumes "is_section_line h"
    and "currentSection (section_loop ws section_start pre) \<noteq> []"
    and "3 \<le> matchCount ws (currentSection (section_loop ws section_start pre))"
  shows "3 \<le> bestMatchCount (section_loop ws section_start (pre @ [h]))
    \<and> bestSection (section_loop ws section_start (pre @ [h] @ post)) =
        bestSection (section_loop ws section_start (pre @ [h]))
    \<and> bestMatchCount (section_loop ws section_start (pre @ [h] @ post)) =
        bestMatchCount (section_loop ws section_start (pre @ [h]))"
proof -
  let ?st = "section_loop ws section_start pre"
  have at_h: "section_loop ws section_start (pre @ [h]) = section_step ws ?st h"
    by (simp add: section_loop_append section_loop_Cons section_loop_Nil)
  from section_step_scores [OF assms] at_h
  have three: "3 \<le> bestMatchCount (section_loop ws section_start (pre @ [h]))"
    by simp
  have "section_loop ws section_start (pre @ [h] @ post) =
      section_loop ws (section_loop ws section_start (pre @ [h])) post"
    using section_loop_append [of ws section_start "pre @ [h]" post] by simp
  with section_loop_frozen [OF three, where ws = ws and lines = post] three show ?thesis
    by simp
qed

theorem section_cutoff_witness:
  "is_section_line ''DAMAGED:''
   \<and> currentSection (section_loop (long_words ''return refund policy damaged items'')
         section_start [''RETURNS:'', ''return refund policy here'']) \<noteq> []
   \<and> 3 \<le> matchCount (long_words ''return refund policy damaged items'')
         (currentSection (section_loop (long_words ''return refund policy damaged items'')
            section_start [''RETURNS:'', ''return refund policy here'']))
   \<and> matchCount (long_words ''return refund policy damaged items'')
         (''DAMAGED:'' @ [CHR 0x0A] @ ''return refund policy damaged items'' @ [CHR 0x0A]) = 5
   \<and> bestSection (section_loop (long_words ''return refund policy damaged items'') section_start
         ([''RETURNS:'', ''return refund policy here''] @ [''DAMAGED:''] @
          [''return refund policy damaged items'', ''END:''])) =
       ''RETURNS:'' @ [CHR 0x0A] @ ''return refund policy here'' @ [CHR 0x0A]
   \<and> bestMatchCount (section_loop (long_words ''return refund policy damaged items'') section_start
         ([''RETURNS:'', ''return refund policy here''] @ [''DAMAGED:''] @
          [''return refund policy damaged items'', ''END:''])) = 3"
proof -
  let ?ws = "long_words ''return refund policy damaged items''"
  let ?pre = "[''RETURNS:'', ''return refund policy here'']"
  have h1: "is_section_line ''DAMAGED:''"
    by code_simp
  have h2: "currentSection (section_loop ?ws section_start ?pre) \<noteq> []"
    by code_simp
  have h3: "3 \<le> matchCount ?ws (currentSection (section_loop ?ws section_start ?pre))"
    by code_simp
  have later: "matchCount ?ws
      (''DAMAGED:'' @ [CHR 0x0A] @ ''return refund policy damaged items'' @ [CHR 0x0A]) = 5"
    by code_simp
  have at_h: "bestSection (section_loop ?ws section_start (?pre @ [''DAMAGED:''])) =
        ''RETURNS:'' @ [CHR 0x0A] @ ''return refund policy here'' @ [CHR 0x0A]"
     "bestMatchCount (section_loop ?ws section_start (?pre @ [''DAMAGED:''])) = 3"
    by code_simp+
  from section_cutoff [OF h1 h2 h3, of "[''return refund policy damaged items'', ''END:'']"]
    h1 h2 h3 later at_h
  show ?thesis by simp
qed


lemma section_step_plain:
  "\<not> is_section_line line \<Longrightarrow>
     bestSection (section_step ws st line) = bestSection st \<and>
     bestMatchCount (section_step ws st line) = bestMatchCount st"
  by (simp add: section_step_def)

lemma section_loop_plain:
  "\<forall>line \<in> set tail. \<not> is_section_line line \<Longrightarrow>
     bestSection (section_loop ws st tail) = bestSection st \<and>
     bestMatchCount (section_loop ws st tail) = bestMatchCount st"
proof (induction tail arbitrary: st)
  case Nil
  show ?case by (simp add: section_loop_Nil)
next
  case (Cons line tail)
  then have "\<not> is_section_line line" and rest: "\<forall>l \<in> set tail. \<not> is_section_line l"
    by simp_all
  from section_step_plain [OF this(1), of ws st] Cons.IH [OF rest, of "section_step ws st line"]
  show ?case by (simp add: section_loop_Cons)
qed

text \<open>
  C10. Lines that are neither a header nor a \<open>===\<close> line only extend the current section:
  appending any such lines \<open>tail\<close> to a document \<open>pre\<close> changes neither the winning section
  nor the best count. Hence the text after the last header line is never scored, and the
  section fallback answers as if that text were absent.
\<close>

theorem final_section_never_scored:
  assumes "\<forall>line \<in> set tail. \<not> is_section_line line"
  shows "bestSection (section_loop ws section_start (pre @ tail)) =
           bestSection (section_loop ws section_start pre)
    \<and> bestMatchCount (section_loop ws section_start (pre @ tail)) =
           bestMatchCount (section_loop ws section_start pre)
    \<and> section_fallback message (pre @ tail) = section_fallback message pre"
proof -
  have "\<And>ws. bestSection (section_loop ws section_start (pre @ tail)) =
           bestSection (section_loop ws section_start pre)
    \<and> bestMatchCount (section_loop ws section_start (pre @ tail)) =
           bestMatchCount (section_loop ws section_start pre)"
    using section_loop_plain [OF assms] by (simp add: section_loop_append)
  then show ?thesis
    by (simp add: section_fallback_def Let_def)
qed

theorem final_section_never_scored_witness:
  "\<not> is_section_line ''return refund policy''
   \<and> matchCount (long_words ''return refund policy'')
         (''RETURNS:'' @ [CHR 0x0A] @ ''return refund policy'' @ [CHR 0x0A]) = 3
   \<and> bestSection (section_loop (long_words ''return refund policy'') section_start
         ([''INTRO:'', ''nothing here'', ''RETURNS:''] @ [''return refund policy''])) = []
   \<and> bestMatchCount (section_loop (long_words ''return refund policy'') section_start
         ([''INTRO:'', ''nothing here'', ''RETURNS:''] @ [''return refund policy''])) = 0
   \<and> section_fallback ''return refund policy''
         ([''INTRO:'', ''nothing here'', ''RETURNS:''] @ [''return refund policy'']) = None"
proof -
  let ?ws = "long_words ''return refund policy''"
  let ?pre = "[''INTRO:'', ''nothing here'', ''RETURNS:'']"
  have h: "\<forall>line \<in> set [''return refund policy'']. \<not> is_section_line line"
    by code_simp
  have final: "matchCount ?ws
      (''RETURNS:'' @ [CHR 0x0A] @ ''return refund policy'' @ [CHR 0x0A]) = 3"
    by code_simp
  have pre: "bestSection (section_loop ?ws section_start ?pre) = []"
    "bestMatchCount (section_loop ?ws section_start ?pre) = 0"
    "section_fallback ''return refund policy'' ?pre = None"
    by code_simp+
  from final_section_never_scored [OF h, of ?ws ?pre "''return refund policy''"] h final pre
  show ?thesis by simp
qed

section \<open>Properties of the response composer\<close>

lemma message_bye: "trim (toLowerCase ''bye'') = ''bye''"
  by code_simp

lemma bye_patterns:
  "\<not> is_greeting ''bye''" "\<not> re_match how_are_you_re ''bye''"
  "\<not> re_match returns_re ''bye''" "\<not> re_match shipping_re ''bye''"
  "\<not> re_match payments_re ''bye''" "\<not> re_match orders_re ''bye''"
  "\<not> str_includes ''bye'' ''help''" "\<not> re_match thanks_re ''bye''"
  "re_match goodbye_re ''bye''"
  by code_simp+

lemma canned_block_replies:
  "str_includes message ''help'' \<Longrightarrow>
     canned_block dir userMessage message reads = \<lparr>reply = HELP_REPLY, files_read = reads\<rparr>"
  "\<not> str_includes message ''help'' \<Longrightarrow> re_match thanks_re message \<Longrightarrow>
     canned_block dir userMessage message reads = \<lparr>reply = THANKS_REPLY, files_read = reads\<rparr>"
  "\<not> str_includes message ''help'' \<Longrightarrow> \<not> re_match thanks_re message \<Longrightarrow>
     re_match goodbye_re message \<Longrightarrow>
     canned_block dir userMessage message reads = \<lparr>reply = GOODBYE_REPLY, files_read = reads\<rparr>"
  by (simp_all add: canned_block_def)

lemma no_topic_reaches_canned:
  assumes "\<not> is_greeting (trim (toLowerCase userMessage))"
    and "\<not> re_match how_are_you_re (trim (toLowerCase userMessage))"
    and "\<not> re_match returns_re (trim (toLowerCase userMessage))"
    and "\<not> re_match shipping_re (trim (toLowerCase userMessage))"
    and "\<not> re_match payments_re (trim (toLowerCase userMessage))"
    and "\<not> re_match orders_re (trim (toLowerCase userMessage))"
  shows "getImprovedMockResponse dir userMessage =
           canned_block dir userMessage (trim (toLowerCase userMessage)) []"
  using assms
  by (simp add: getImprovedMockResponse_def returns_block_def shipping_block_def
      payments_block_def orders_block_def)

lemma bye_reply:
  "getImprovedMockResponse dir ''bye'' = \<lparr>reply = GOODBYE_REPLY, files_read = []\<rparr>"
  using no_topic_reaches_canned [of "''bye''" dir] bye_patterns
    canned_block_replies(3) [of "''bye''" dir "''bye''" "[]"]
  by (simp add: message_bye)

text \<open>
  C5 (as amended). With \<open>message\<close> the trimmed, lower-cased input: a greeting, and
  otherwise a "how are you", is answered first, with its fixed reply and without looking
  for any knowledge file. Help, thanks and goodbye are tested after the blocks for
  returns, shipping, payments and orders: when the message matches none of the patterns of
  those four blocks (and is neither a greeting nor a "how are you"), a help request gets
  the help reply, otherwise a thanks the thanks reply, otherwise a goodbye the goodbye
  reply, each without looking for any knowledge file. In particular \<open>bye\<close> gets the
  goodbye reply and no file is looked for.
\<close>

theorem canned_intents:
  assumes "message = trim (toLowerCase userMessage)"
  shows "(is_greeting message \<longrightarrow>
            getImprovedMockResponse dir userMessage = \<lparr>reply = GREETING_REPLY, files_read = []\<rparr>)
    \<and> (\<not> is_greeting message \<and> re_match how_are_you_re message \<longrightarrow>
            getImprovedMockResponse dir userMessage = \<lparr>reply = HOW_ARE_YOU_REPLY, files_read = []\<rparr>)
    \<and> (\<not> is_greeting message \<and> \<not> re_match how_are_you_re message \<and>
        \<not> re_match returns_re message \<and> \<not> re_match shipping_re message \<and>
        \<not> re_match payments_re message \<and> \<not> re_match orders_re message \<longrightarrow>
          (str_includes message ''help'' \<longrightarrow>
             getImprovedMockResponse dir userMessage = \<lparr>reply = HELP_REPLY, files_read = []\<rparr>)
        \<and> (\<not> str_includes message ''help'' \<and> re_match thanks_re message \<longrightarrow>
             getImprovedMockResponse dir userMessage = \<lparr>reply = THANKS_REPLY, files_read = []\<rparr>)
        \<and> (\<not> str_includes message ''help'' \<and> \<not> re_match thanks_re message \<and>
            re_match goodbye_re message \<longrightarrow>
             getImprovedMockResponse dir userMessage = \<lparr>reply = GOODBYE_REPLY, files_read = []\<rparr>))
    \<and> getImprovedMockResponse dir ''bye'' = \<lparr>reply = GOODBYE_REPLY, files_read = []\<rparr>"
proof (intro conjI impI)
  assume "is_greeting message"
  with assms show "getImprovedMockResponse dir userMessage =
      \<lparr>reply = GREETING_REPLY, files_read = []\<rparr>"
    by (simp add: getImprovedMockResponse_def)
next
  assume "\<not> is_greeting message \<and> re_match how_are_you_re message"
  with assms show "getImprovedMockResponse dir userMessage =
      \<lparr>reply = HOW_ARE_YOU_REPLY, files_read = []\<rparr>"
    by (simp add: getImprovedMockResponse_def)
next
  assume none: "\<not> is_greeting message \<and> \<not> re_match how_are_you_re message \<and>
        \<not> re_match returns_re message \<and> \<not> re_match shipping_re message \<and>
        \<not> re_match payments_re message \<and> \<not> re_match orders_re message"
  with assms no_topic_reaches_canned [of userMessage dir]
  have canned: "getImprovedMockResponse dir userMessage = canned_block dir userMessage message []"
    by simp
  {
    assume "str_includes message ''help''"
    with canned canned_block_replies(1)
    show "getImprovedMockResponse dir userMessage = \<lparr>reply = HELP_REPLY, files_read = []\<rparr>"
      by simp
  next
    assume "\<not> str_includes message ''help'' \<and> re_match thanks_re message"
    with canned canned_block_replies(2)
    show "getImprovedMockResponse dir userMessage = \<lparr>reply = THANKS_REPLY, files_read = []\<rparr>"
      by simp
  next
    assume "\<not> str_includes message ''help'' \<and> \<not> re_match thanks_re message \<and>
            re_match goodbye_re message"
    with canned canned_block_replies(3)
    show "getImprovedMockResponse dir userMessage = \<lparr>reply = GOODBYE_REPLY, files_read = []\<rparr>"
      by simp
  }
next
  show "getImprovedMockResponse dir ''bye'' = \<lparr>reply = GOODBYE_REPLY, files_read = []\<rparr>"
    by (rule bye_reply)
qed

theorem canned_intents_witness:
  "''thanks a lot!'' = trim (toLowerCase ''Thanks a lot!'')
   \<and> \<not> is_greeting ''thanks a lot!'' \<and> \<not> re_match how_are_you_re ''thanks a lot!''
   \<and> \<not> re_match returns_re ''thanks a lot!'' \<and> \<not> re_match shipping_re ''thanks a lot!''
   \<and> \<not> re_match payments_re ''thanks a lot!'' \<and> \<not> re_match orders_re ''thanks a lot!''
   \<and> \<not> str_includes ''thanks a lot!'' ''help'' \<and> re_match thanks_re ''thanks a lot!''
   \<and> getImprovedMockResponse (map_of [(''returns.txt'', ''Refunds are issued within 5 days.'')])
         ''Thanks a lot!'' = \<lparr>reply = THANKS_REPLY, files_read = []\<rparr>"
proof -
  have msg: "''thanks a lot!'' = trim (toLowerCase ''Thanks a lot!'')"
    by code_simp
  have pats: "\<not> is_greeting ''thanks a lot!''" "\<not> re_match how_are_you_re ''thanks a lot!''"
    "\<not> re_match returns_re ''thanks a lot!''" "\<not> re_match shipping_re ''thanks a lot!''"
    "\<not> re_match payments_re ''thanks a lot!''" "\<not> re_match orders_re ''thanks a lot!''"
    "\<not> str_includes ''thanks a lot!'' ''help''" "re_match thanks_re ''thanks a lot!''"
    by code_simp+
  from canned_intents [OF msg,
      of "map_of [(''returns.txt'', ''Refunds are issued within 5 days.'')]"] msg pats
  show ?thesis by simp
qed

text \<open>
  The claim as stated fails for a thanks that also names a topic: with a returns file
  present, \<open>thanks for the refund\<close> matches the thanks pattern, yet the returns block answers
  first, after looking for \<open>returns.txt\<close>.
\<close>

theorem canned_intents_counterexample:
  "re_match thanks_re (trim (toLowerCase ''thanks for the refund''))
   \<and> getImprovedMockResponse (map_of [(''returns.txt'', ''Refunds are issued within 5 days.'')])
        ''thanks for the refund'' =
       \<lparr>reply = RETURNS_REPLY, files_read = [''returns.txt'']\<rparr>
   \<and> RETURNS_REPLY \<noteq> THANKS_REPLY"
  by code_simp

lemma order_canned_long: "length (order_canned message) > 30"
  by (simp add: order_canned_def ORDER_ID_REPLY_def LATEST_ORDER_REPLY_def TRACKING_REPLY_def
      CANCEL_REPLY_def ORDERS_REPLY_def)

lemma orders_block_reply:
  assumes "re_match orders_re message" and "getDataFromFile dir ''orders'' = Some d" and "d \<noteq> []"
  shows "reply (orders_block dir userMessage message reads) =
           (case getAnswerFromData userMessage d of
              None \<Rightarrow> order_canned message
            | Some a \<Rightarrow> if length a > 30 then a else order_canned message)"
  using assms by (simp add: orders_block_def split: option.splits)

text \<open>
  C6. When the orders block is entered (the message matches the orders pattern) and the
  orders file is present and not empty, the reply is the extraction result exactly when
  that result has more than 30 characters; otherwise it is the first of the canned
  replies for an order-id request, a latest-order request, a tracking request and a
  cancellation request whose pattern the message matches, and the generic order reply
  when none matches. A message that is no greeting and no "how are you" and matches none
  of the patterns for returns, shipping and payments is handled by the orders block.
\<close>

theorem orders_acceptance:
  assumes "re_match orders_re message" and "getDataFromFile dir ''orders'' = Some d" and "d \<noteq> []"
  shows "reply (orders_block dir userMessage message reads) =
           (case getAnswerFromData userMessage d of
              None \<Rightarrow> order_canned message
            | Some a \<Rightarrow> if length a > 30 then a else order_canned message)
    \<and> (\<forall>a. getAnswerFromData userMessage d = Some a \<longrightarrow>
          (reply (orders_block dir userMessage message reads) = a \<longleftrightarrow> length a > 30))
    \<and> order_canned message =
          (if re_match order_id_re message then ORDER_ID_REPLY
           else if re_match latest_order_re message then LATEST_ORDER_REPLY
           else if re_match tracking_re message then TRACKING_REPLY
           else if re_match cancel_re message then CANCEL_REPLY
           else ORDERS_REPLY)
    \<and> (message = trim (toLowerCase userMessage) \<and> \<not> is_greeting message \<and>
        \<not> re_match how_are_you_re message \<and> \<not> re_match returns_re message \<and>
        \<not> re_match shipping_re message \<and> \<not> re_match payments_re message \<longrightarrow>
          getImprovedMockResponse dir userMessage = orders_block dir userMessage message [])"
proof (intro conjI allI impI)
  assume "message = trim (toLowerCase userMessage) \<and> \<not> is_greeting message \<and>
        \<not> re_match how_are_you_re message \<and> \<not> re_match returns_re message \<and>
        \<not> re_match shipping_re message \<and> \<not> re_match payments_re message"
  then show "getImprovedMockResponse dir userMessage = orders_block dir userMessage message []"
    by (auto simp: getImprovedMockResponse_def Let_def returns_block_def shipping_block_def
        payments_block_def)
next
  show r: "reply (orders_block dir userMessage message reads) =
           (case getAnswerFromData userMessage d of
              None \<Rightarrow> order_canned message
            | Some a \<Rightarrow> if length a > 30 then a else order_canned message)"
    by (rule orders_block_reply [OF assms])
  show "order_canned message =
          (if re_match order_id_re message then ORDER_ID_REPLY
           else if re_match latest_order_re message then LATEST_ORDER_REPLY
           else if re_match tracking_re message then TRACKING_REPLY
           else if re_match cancel_re message then CANCEL_REPLY
           else ORDERS_REPLY)"
    by (simp add: order_canned_def)
  fix a
  assume a: "getAnswerFromData userMessage d = Some a"
  show "reply (orders_block dir userMessage message reads) = a \<longleftrightarrow> length a > 30"
  proof (cases "length a > 30")
    case True
    with r a show ?thesis by simp
  next
    case False
    with r a have "reply (orders_block dir userMessage message reads) = order_canned message"
      by simp
    with order_canned_long [of message] False show ?thesis
      by auto
  qed
qed

theorem orders_acceptance_witness:
  "re_match orders_re ''where is my order''
   \<and> getDataFromFile (map_of [(''orders.txt'', ''Q: where is my order'' @ [CHR 0x0A] @ ''A: Shipped.'')])
        ''orders'' = Some (''Q: where is my order'' @ [CHR 0x0A] @ ''A: Shipped.'')
   \<and> ''Q: where is my order'' @ [CHR 0x0A] @ ''A: Shipped.'' \<noteq> []
   \<and> getAnswerFromData ''Where is my order''
        (''Q: where is my order'' @ [CHR 0x0A] @ ''A: Shipped.'') = Some ''Shipped.''
   \<and> reply (orders_block (map_of [(''orders.txt'', ''Q: where is my order'' @ [CHR 0x0A] @ ''A: Shipped.'')])
        ''Where is my order'' ''where is my order'' []) = TRACKING_REPLY
   \<and> getImprovedMockResponse (map_of [(''orders.txt'', ''Q: where is my order'' @ [CHR 0x0A] @ ''A: Shipped.'')])
        ''Where is my order'' = \<lparr>reply = TRACKING_REPLY, files_read = [''orders.txt'']\<rparr>"
proof -
  let ?d = "''Q: where is my order'' @ [CHR 0x0A] @ ''A: Shipped.''"
  let ?dir = "map_of [(''orders.txt'', ?d)]"
  have h1: "re_match orders_re ''where is my order''"
    by code_simp
  have h2: "getDataFromFile ?dir ''orders'' = Some ?d"
    by code_simp
  have h3: "?d \<noteq> []"
    by simp
  have ans: "getAnswerFromData ''Where is my order'' ?d = Some ''Shipped.''"
    by code_simp
  have pats: "\<not> re_match order_id_re ''where is my order''"
    "\<not> re_match latest_order_re ''where is my order''"
    "re_match tracking_re ''where is my order''"
    by code_simp+
  have whole: "getImprovedMockResponse ?dir ''Where is my order'' =
      \<lparr>reply = TRACKING_REPLY, files_read = [''orders.txt'']\<rparr>"
    by code_simp
  from orders_acceptance [OF h1 h2 h3, of "''Where is my order''" "[]"] h1 h2 ans pats whole
  show ?thesis by simp
qed

section \<open>Properties of the question and answer scorer\<close>

lemma isUpper_toLowerChar: "\<not> isUpper (toLowerChar c)"
  by (cases c) (simp add: isUpper_def toLowerChar_def)

lemma toLowerChar_idem: "toLowerChar (toLowerChar c) = toLowerChar c"
  using isUpper_toLowerChar [of c] by (simp add: toLowerChar_def)

lemma toLowerCase_idem: "toLowerCase (toLowerCase s) = toLowerCase s"
  by (simp add: toLowerCase_def toLowerChar_idem)

lemma includes_trim: "str_includes s (trim s)"
proof -
  have "sublist (rev (dropWhile isSpace (rev (dropWhile isSpace s)))) (rev (rev (dropWhile isSpace s)))"
    unfolding sublist_rev by (rule sublist_dropWhile)
  then have "sublist (trim s) (dropWhile isSpace s)"
    by (simp add: trim_def)
  moreover have "sublist (dropWhile isSpace s) s"
    by (rule sublist_dropWhile)
  ultimately show ?thesis
    unfolding str_includes_def by (rule sublist_order.order_trans)
qed

lemma includes_strip_prefix: "str_includes s (strip_prefix p s)"
proof (cases "prefix p s")
  case True
  have "sublist (dropWhile isSpace (drop (length p) s)) (drop (length p) s)"
    by (rule sublist_dropWhile)
  moreover have "sublist (drop (length p) s) s"
    by (rule sublist_drop)
  ultimately have "sublist (dropWhile isSpace (drop (length p) s)) s"
    by (rule sublist_order.order_trans)
  with True show ?thesis
    by (simp add: str_includes_def strip_prefix_def)
next
  case False
  then show ?thesis
    by (simp add: str_includes_def strip_prefix_def)
qed

lemma phrase_points_same: "phrase_points q q = 100"
proof -
  have "sublist (trim (strip_prefix ''q:'' q)) (strip_prefix ''q:'' q)"
    using includes_trim [of "strip_prefix ''q:'' q"] by (simp add: str_includes_def)
  moreover have "sublist (strip_prefix ''q:'' q) q"
    using includes_strip_prefix [of q "''q:''"] by (simp add: str_includes_def)
  ultimately have "sublist (trim (strip_prefix ''q:'' q)) q"
    by (rule sublist_order.order_trans)
  then show ?thesis
    by (simp add: phrase_points_def str_includes_def)
qed

lemma word_points_nonneg: "0 \<le> word_points message qLower"
  by (simp add: word_points_def Let_def)

lemma bonus_nonneg: "0 \<le> points \<Longrightarrow> 0 \<le> bonus message qLower keyword points"
  by (simp add: bonus_def)

lemma penalty_same: "penalty q q = 0"
  by (simp add: penalty_def)

lemma qa_score_same:
  assumes "message = toLowerCase (question p)"
  shows "100 \<le> qa_score message p"
proof -
  let ?q = "toLowerCase (question p)"
  have b: "0 \<le> bonus ?q ?q ''track'' 20" "0 \<le> bonus ?q ?q ''cancel'' 20"
    "0 \<le> bonus ?q ?q ''latest'' 20" "0 \<le> bonus ?q ?q ''order id'' 30"
    "0 \<le> bonus ?q ?q ''all order'' 30" "0 \<le> bonus ?q ?q ''reorder'' 20"
    "0 \<le> bonus ?q ?q ''change'' 20" "0 \<le> bonus ?q ?q ''wrong item'' 30"
    by (simp_all add: bonus_nonneg)
  from b phrase_points_same [of ?q] word_points_nonneg [of ?q ?q] penalty_same [of ?q]
  have "100 \<le> qa_score ?q p"
    unfolding qa_score_def Let_def by linarith
  with assms show ?thesis by simp
qed

lemma best_loop_Nil: "best_loop message st [] = st"
  by (simp add: best_loop_def)

lemma best_loop_Cons:
  "best_loop message st (p # ps) = best_loop message (best_step message st p) ps"
  by (simp add: best_loop_def)

lemma best_loop_append:
  "best_loop message st (ps @ qs) = best_loop message (best_loop message st ps) qs"
  by (simp add: best_loop_def)

lemma best_step_mono: "bestScore st \<le> bestScore (best_step message st p)"
  by (simp add: best_step_def)

lemma best_step_upper: "qa_score message p \<le> bestScore (best_step message st p)"
  by (simp add: best_step_def)

lemma best_loop_mono: "bestScore st \<le> bestScore (best_loop message st ps)"
proof (induction ps arbitrary: st)
  case Nil
  show ?case by (simp add: best_loop_Nil)
next
  case (Cons p ps)
  from best_step_mono [of st message p] Cons.IH [of "best_step message st p"]
  show ?case by (simp add: best_loop_Cons)
qed

lemma best_loop_upper:
  "p \<in> set ps \<Longrightarrow> qa_score message p \<le> bestScore (best_loop message st ps)"
proof (induction ps arbitrary: st)
  case Nil
  then show ?case by simp
next
  case (Cons x ps)
  show ?case
  proof (cases "p = x")
    case True
    from best_step_upper [of message x st] best_loop_mono [of "best_step message st x" message ps]
    show ?thesis using True by (simp add: best_loop_Cons)
  next
    case False
    with Cons.prems have "p \<in> set ps" by simp
    from Cons.IH [OF this, of "best_step message st x"] show ?thesis
      by (simp add: best_loop_Cons)
  qed
qed

text \<open>Whatever the loop holds as best match is a pair of the list, with the best score.\<close>

lemma best_loop_match:
  assumes "bestMatch (best_loop message st ps) = Some b"
  shows "(b \<in> set ps \<and> qa_score message b = bestScore (best_loop message st ps))
       \<or> (bestMatch st = Some b \<and> bestScore (best_loop message st ps) = bestScore st)"
  using assms
proof (induction ps arbitrary: st)
  case Nil
  then show ?case by (simp add: best_loop_Nil)
next
  case (Cons x ps)
  from Cons.prems have "bestMatch (best_loop message (best_step message st x) ps) = Some b"
    by (simp add: best_loop_Cons)
  from Cons.IH [OF this]
  consider "b \<in> set ps \<and>
      qa_score message b = bestScore (best_loop message (best_step message st x) ps)"
    | "bestMatch (best_step message st x) = Some b \<and>
       bestScore (best_loop message (best_step message st x) ps) =
       bestScore (best_step message st x)"
    by blast
  then show ?case
  proof cases
    case 1
    then show ?thesis by (simp add: best_loop_Cons)
  next
    case 2
    then show ?thesis
      by (cases "qa_score message x > bestScore st") (auto simp: best_loop_Cons best_step_def)
  qed
qed

lemma best_loop_found:
  "p \<in> set ps \<Longrightarrow> bestScore st < qa_score message p \<Longrightarrow> bestMatch st = None \<Longrightarrow>
     \<exists>b \<in> set ps. bestMatch (best_loop message st ps) = Some b"
proof (induction ps arbitrary: st)
  case Nil
  then show ?case by simp
next
  case (Cons x ps)
  show ?case
  proof (cases "qa_score message x > bestScore st")
    case True
    then have st': "best_step message st x = \<lparr>bestMatch = Some x, bestScore = qa_score message x\<rparr>"
      by (simp add: best_step_def)
    obtain b where b: "bestMatch (best_loop message (best_step message st x) ps) = Some b"
    proof (cases "bestMatch (best_loop message (best_step message st x) ps)")
      case None
      have "bestScore (best_step message st x) \<le>
          bestScore (best_loop message (best_step message st x) ps)"
        by (rule best_loop_mono)
      have "\<And>qs s. bestMatch s \<noteq> None \<Longrightarrow> bestMatch (best_loop message s qs) \<noteq> None"
      proof -
        fix qs :: "qa list" and s :: best_scan
        assume "bestMatch s \<noteq> None"
        then show "bestMatch (best_loop message s qs) \<noteq> None"
        proof (induction qs arbitrary: s)
          case Nil
          then show ?case by (simp add: best_loop_Nil)
        next
          case (Cons q qs)
          from Cons.prems have "bestMatch (best_step message s q) \<noteq> None"
            by (simp add: best_step_def)
          from Cons.IH [OF this] show ?case by (simp add: best_loop_Cons)
        qed
      qed
      from this [of "best_step message st x" ps] st' None show ?thesis
        by simp
    next
      case (Some b)
      then show ?thesis by (rule that)
    qed
    from best_loop_match [OF b] st' have "b \<in> set ps \<or> b = x"
      by auto
    with b show ?thesis by (auto simp: best_loop_Cons)
  next
    case False
    then have st': "best_step message st x = st"
      by (simp add: best_step_def)
    from False Cons.prems(1,2) have "p \<in> set ps"
      by auto
    from Cons.IH [OF this Cons.prems(2,3)] st' show ?thesis
      by (auto simp: best_loop_Cons)
  qed
qed

lemma best_loop_keep:
  "\<forall>x \<in> set ps. qa_score message x \<le> bestScore st \<Longrightarrow> best_loop message st ps = st"
proof (induction ps)
  case Nil
  show ?case by (simp add: best_loop_Nil)
next
  case (Cons x ps)
  then have "best_step message st x = st"
    by (simp add: best_step_def)
  with Cons show ?case by (simp add: best_loop_Cons)
qed

lemma best_loop_below:
  "bestScore st < v \<Longrightarrow> \<forall>x \<in> set ps. qa_score message x < v \<Longrightarrow>
     bestScore (best_loop message st ps) < v"
proof (induction ps arbitrary: st)
  case Nil
  then show ?case by (simp add: best_loop_Nil)
next
  case (Cons x ps)
  from Cons.prems have "bestScore (best_step message st x) < v"
    by (simp add: best_step_def)
  moreover from Cons.prems have "\<forall>y \<in> set ps. qa_score message y < v"
    by simp
  ultimately show ?case
    using Cons.IH by (simp add: best_loop_Cons)
qed

text \<open>The first pair of strictly greatest positive score wins.\<close>

lemma best_loop_first_max:
  assumes "\<forall>x \<in> set before. qa_score message x < qa_score message p"
    and "\<forall>x \<in> set after. qa_score message x \<le> qa_score message p"
    and "0 < qa_score message p"
  shows "best_loop message best_start (before @ [p] @ after) =
           \<lparr>bestMatch = Some p, bestScore = qa_score message p\<rparr>"
proof -
  have "bestScore best_start < qa_score message p"
    using assms(3) by (simp add: best_start_def)
  from best_loop_below [OF this assms(1)]
  have "best_step message (best_loop message best_start before) p =
      \<lparr>bestMatch = Some p, bestScore = qa_score message p\<rparr>"
    by (simp add: best_step_def)
  moreover have "best_loop message \<lparr>bestMatch = Some p, bestScore = qa_score message p\<rparr> after =
      \<lparr>bestMatch = Some p, bestScore = qa_score message p\<rparr>"
    using assms(2) by (intro best_loop_keep) simp
  ultimately show ?thesis
    by (simp add: best_loop_append best_loop_Cons best_loop_Nil)
qed

lemma qa_answer_None: "bestScore st \<le> 15 \<Longrightarrow> qa_answer st = None"
  by (simp add: qa_answer_def split: option.splits)

lemma parse_qa_empty: "parse_qa (split_char (CHR 0x0A) []) = []"
  by code_simp

lemma getAnswerFromData_qa:
  assumes "product_matcher (toLowerCase userMessage) (split_char (CHR 0x0A) dataContent) = None"
    and "qa_scorer (toLowerCase userMessage) (split_char (CHR 0x0A) dataContent) = Some a"
  shows "getAnswerFromData userMessage dataContent = Some a"
proof -
  have "dataContent \<noteq> []"
  proof
    assume "dataContent = []"
    with assms(2) parse_qa_empty show False
      by (simp add: qa_scorer_def best_loop_Nil best_start_def qa_answer_def)
  qed
  with assms show ?thesis
    by (simp add: getAnswerFromData_def Let_def)
qed

text \<open>
  C2 (as amended). Let the pairs parsed from the corpus contain a pair \<open>p\<close> whose question
  equals the query up to case, and let \<open>message\<close> be the lower-cased query. Then \<open>p\<close> scores at
  least 100; the scorer returns, verbatim, the answer of a pair of maximal score, and that
  score is at least 100 (so above the threshold 15); when the product matcher has not
  answered, this is the answer of \<open>getAnswerFromData\<close>. The answer returned is the one stored
  for \<open>p\<close> whenever every pair before \<open>p\<close> scores strictly less than \<open>p\<close> and no pair after \<open>p\<close>
  scores more. Conversely, for every query and corpus, the scorer returns nothing when the
  best score is 15 or less.
\<close>

theorem qa_exact_match:
  assumes "lines = split_char (CHR 0x0A) dataContent"
    and "message = toLowerCase userMessage"
    and "p \<in> set (parse_qa lines)"
    and "toLowerCase userMessage = toLowerCase (question p)"
  shows "100 \<le> qa_score message p
    \<and> (\<exists>best \<in> set (parse_qa lines).
          qa_scorer message lines = Some (answer best)
          \<and> 100 \<le> qa_score message best
          \<and> (\<forall>x \<in> set (parse_qa lines). qa_score message x \<le> qa_score message best)
          \<and> (product_matcher message lines = None \<longrightarrow>
               getAnswerFromData userMessage dataContent = Some (answer best)))
    \<and> (\<forall>before after.
          parse_qa lines = before @ [p] @ after \<and>
          (\<forall>x \<in> set before. qa_score message x < qa_score message p) \<and>
          (\<forall>x \<in> set after. qa_score message x \<le> qa_score message p) \<longrightarrow>
          qa_scorer message lines = Some (answer p))
    \<and> (\<forall>m ls. bestScore (best_loop m best_start (parse_qa ls)) \<le> 15 \<longrightarrow> qa_scorer m ls = None)"
proof (intro conjI allI impI)
  let ?final = "best_loop message best_start (parse_qa lines)"
  from assms(2,4) have "message = toLowerCase (question p)"
    by simp
  from qa_score_same [OF this] show hundred: "100 \<le> qa_score message p" .
  then have "bestScore best_start < qa_score message p"
    by (simp add: best_start_def)
  from best_loop_found [OF assms(3) this]
  obtain b where b: "b \<in> set (parse_qa lines)" "bestMatch ?final = Some b"
    by (auto simp: best_start_def)
  from best_loop_match [OF b(2)] have score_b: "qa_score message b = bestScore ?final"
    by (auto simp: best_start_def)
  from best_loop_upper [OF assms(3), of message best_start] hundred score_b
  have b100: "100 \<le> qa_score message b"
    by simp
  with b(2) score_b have ans: "qa_scorer message lines = Some (answer b)"
    by (simp add: qa_scorer_def qa_answer_def)
  have top: "\<forall>x \<in> set (parse_qa lines). qa_score message x \<le> qa_score message b"
    using best_loop_upper [of _ "parse_qa lines" message best_start] score_b by simp
  have chain: "product_matcher message lines = None \<longrightarrow>
      getAnswerFromData userMessage dataContent = Some (answer b)"
    using getAnswerFromData_qa [of userMessage dataContent "answer b"] ans assms(1,2) by simp
  from b(1) ans b100 top chain
  show "\<exists>best \<in> set (parse_qa lines).
          qa_scorer message lines = Some (answer best)
          \<and> 100 \<le> qa_score message best
          \<and> (\<forall>x \<in> set (parse_qa lines). qa_score message x \<le> qa_score message best)
          \<and> (product_matcher message lines = None \<longrightarrow>
               getAnswerFromData userMessage dataContent = Some (answer best))"
    by (intro bexI [of _ b]) simp_all
  {
    fix before after
    assume split: "parse_qa lines = before @ [p] @ after \<and>
          (\<forall>x \<in> set before. qa_score message x < qa_score message p) \<and>
          (\<forall>x \<in> set after. qa_score message x \<le> qa_score message p)"
    from hundred have "0 < qa_score message p"
      by simp
    with split best_loop_first_max [of before message p after]
    have "?final = \<lparr>bestMatch = Some p, bestScore = qa_score message p\<rparr>"
      by simp
    with hundred show "qa_scorer message lines = Some (answer p)"
      by (simp add: qa_scorer_def qa_answer_def)
  }
  {
    fix m ls
    assume "bestScore (best_loop m best_start (parse_qa ls)) \<le> 15"
    from qa_answer_None [OF this] show "qa_scorer m ls = None"
      by (simp add: qa_scorer_def)
  }
qed

theorem qa_exact_match_witness:
  "\<lparr>question = ''how do i pay'', answer = ''Use a card.''\<rparr> \<in> set (parse_qa
       (split_char (CHR 0x0A)
          (''Q: How do I pay'' @ [CHR 0x0A] @ ''A: Use a card.'' @ [CHR 0x0A] @ [CHR 0x0A] @
           ''Q: Track my parcel'' @ [CHR 0x0A] @ ''A: Use the tracking page.'')))
   \<and> toLowerCase ''HOW DO I PAY'' = toLowerCase ''how do i pay''
   \<and> 100 \<le> qa_score (toLowerCase ''HOW DO I PAY'')
         \<lparr>question = ''how do i pay'', answer = ''Use a card.''\<rparr>
   \<and> qa_scorer (toLowerCase ''HOW DO I PAY'')
       (split_char (CHR 0x0A)
          (''Q: How do I pay'' @ [CHR 0x0A] @ ''A: Use a card.'' @ [CHR 0x0A] @ [CHR 0x0A] @
           ''Q: Track my parcel'' @ [CHR 0x0A] @ ''A: Use the tracking page.'')) =
       Some ''Use a card.''"
proof -
  let ?data = "''Q: How do I pay'' @ [CHR 0x0A] @ ''A: Use a card.'' @ [CHR 0x0A] @ [CHR 0x0A] @
           ''Q: Track my parcel'' @ [CHR 0x0A] @ ''A: Use the tracking page.''"
  let ?p = "\<lparr>question = ''how do i pay'', answer = ''Use a card.''\<rparr>"
  let ?q = "\<lparr>question = ''track my parcel'', answer = ''Use the tracking page.''\<rparr>"
  have pairs: "parse_qa (split_char (CHR 0x0A) ?data) = [] @ [?p] @ [?q]"
    by code_simp
  then have h3: "?p \<in> set (parse_qa (split_char (CHR 0x0A) ?data))"
    by simp
  have h4: "toLowerCase ''HOW DO I PAY'' = toLowerCase (question ?p)"
    by code_simp
  have later: "qa_score (toLowerCase ''HOW DO I PAY'') ?q \<le> qa_score (toLowerCase ''HOW DO I PAY'') ?p"
    by code_simp
  have h4': "toLowerCase ''HOW DO I PAY'' = toLowerCase ''how do i pay''"
    by code_simp
  note all = qa_exact_match [OF refl refl h3 h4]
  from all have c1: "100 \<le> qa_score (toLowerCase ''HOW DO I PAY'') ?p"
    by (rule conjunct1)
  have prem: "parse_qa (split_char (CHR 0x0A) ?data) = [] @ [?p] @ [?q] \<and>
      (\<forall>x \<in> set []. qa_score (toLowerCase ''HOW DO I PAY'') x
                        < qa_score (toLowerCase ''HOW DO I PAY'') ?p) \<and>
      (\<forall>x \<in> set [?q]. qa_score (toLowerCase ''HOW DO I PAY'') x
                        \<le> qa_score (toLowerCase ''HOW DO I PAY'') ?p)"
    using pairs later by simp
  from all [THEN conjunct2, THEN conjunct2, THEN conjunct1, rule_format, OF prem]
  have "qa_scorer (toLowerCase ''HOW DO I PAY'') (split_char (CHR 0x0A) ?data) = Some (answer ?p)" .
  moreover have "answer ?p = ''Use a card.''"
    by simp
  ultimately have res: "qa_scorer (toLowerCase ''HOW DO I PAY'') (split_char (CHR 0x0A) ?data) =
      Some ''Use a card.''"
    by (simp only:)
  from h3 h4' c1 res show ?thesis
    by blast
qed

text \<open>
  The claim as stated fails when another pair scores more than the pair with the very
  question asked. The corpus stores \<open>Use a card.\<close> for \<open>how do i pay\<close> and a second answer for
  \<open>how do i pay payments\<close>; for the query \<open>how do i pay\<close> the first pair scores 100, the second
  150 (its question contains the query, and its only important word \<open>payments\<close> contains
  the query word \<open>pay\<close>), and the second answer is returned.
\<close>

theorem qa_exact_match_counterexample:
  "parse_qa (split_char (CHR 0x0A)
       (''Q: how do i pay'' @ [CHR 0x0A] @ ''A: Use a card.'' @ [CHR 0x0A] @ [CHR 0x0A] @
        ''Q: how do i pay payments'' @ [CHR 0x0A] @ ''A: See the payments page.'')) =
     [\<lparr>question = ''how do i pay'', answer = ''Use a card.''\<rparr>,
      \<lparr>question = ''how do i pay payments'', answer = ''See the payments page.''\<rparr>]
   \<and> qa_score ''how do i pay'' \<lparr>question = ''how do i pay'', answer = ''Use a card.''\<rparr> = 100
   \<and> qa_score ''how do i pay''
        \<lparr>question = ''how do i pay payments'', answer = ''See the payments page.''\<rparr> = 150
   \<and> getAnswerFromData ''how do i pay''
       (''Q: how do i pay'' @ [CHR 0x0A] @ ''A: Use a card.'' @ [CHR 0x0A] @ [CHR 0x0A] @
        ''Q: how do i pay payments'' @ [CHR 0x0A] @ ''A: See the payments page.'') =
       Some ''See the payments page.''"
  by code_simp

section \<open>Properties of the generative responder\<close>

lemma hf_retry:
  "warming_up (service n) \<Longrightarrow>
     getHuggingFaceResponse dir service userMessage n =
     getHuggingFaceResponse dir service userMessage (Suc n)"
  by (subst getHuggingFaceResponse.simps)
     (auto simp: warming_up_def response_ok_def split: hf_response.splits option.splits)

lemma hf_settled:
  "\<not> warming_up (service n) \<Longrightarrow>
     getHuggingFaceResponse dir service userMessage n =
     Some \<lparr>hf_reply = settled_reply dir userMessage (service n), requests = Suc n\<rparr>"
  by (subst getHuggingFaceResponse.simps)
     (auto simp: warming_up_def settled_reply_def split: hf_response.splits option.splits)

lemma hf_after_warmups:
  "\<forall>i<k. warming_up (service (n + i)) \<Longrightarrow>
     getHuggingFaceResponse dir service userMessage n =
     getHuggingFaceResponse dir service userMessage (n + k)"
proof (induction k)
  case 0
  show ?case by simp
next
  case (Suc k)
  then have "warming_up (service (n + k))" and "\<forall>i<k. warming_up (service (n + i))"
    by simp_all
  from hf_retry [of service "n + k" dir userMessage] this(1) Suc.IH [OF this(2)]
  show ?case by simp
qed

text \<open>A call that returns has sent at least one request of its own.\<close>

lemma hf_requests:
  "getHuggingFaceResponse dir service userMessage n = Some y \<Longrightarrow> n < requests y"
  apply (erule getHuggingFaceResponse.raw_induct
      [rotated, where P = "\<lambda>dir service userMessage n y. n < requests y"])
  subgoal premises prems for f dir service userMessage n y
  proof (cases "warming_up (service n)")
    case True
    with prems(2) have "f dir service userMessage (Suc n) = Some y"
      by (auto simp: warming_up_def response_ok_def split: hf_response.splits option.splits)
    from prems(1) [OF this] show ?thesis
      by simp
  next
    case False
    with prems(2)
    have "y = \<lparr>hf_reply = settled_reply dir userMessage (service n), requests = Suc n\<rparr>"
      by (auto simp: warming_up_def settled_reply_def
          split: hf_response.splits option.splits if_splits)
    then show ?thesis
      by simp
  qed
  done

lemma hf_never_returns:
  assumes "\<forall>i. warming_up (service (n + i))"
  shows "getHuggingFaceResponse dir service userMessage n = None"
proof (rule ccontr)
  assume "getHuggingFaceResponse dir service userMessage n \<noteq> None"
  then obtain y where y: "getHuggingFaceResponse dir service userMessage n = Some y"
    by auto
  from assms have "\<forall>i<requests y. warming_up (service (n + i))"
    by simp
  from hf_after_warmups [OF this, of dir userMessage] y
  have "getHuggingFaceResponse dir service userMessage (n + requests y) = Some y"
    by simp
  from hf_requests [OF this] show False
    by simp
qed

lemma hf_returns:
  assumes "\<forall>i<k. warming_up (service (n + i))" and "\<not> warming_up (service (n + k))"
  shows "getHuggingFaceResponse dir service userMessage n =
     Some \<lparr>hf_reply = settled_reply dir userMessage (service (n + k)), requests = Suc (n + k)\<rparr>"
  using hf_after_warmups [OF assms(1), of dir userMessage]
    hf_settled [of service "n + k" dir userMessage] assms(2)
  by simp

text \<open>
  C9 (as amended). A response that signals warm-up (status 503 with a non-zero
  \<open>estimated_time\<close>) makes the function call itself once, and that call treats its response
  like the first one, so the re-attempts are not limited to one: after \<open>k\<close> warm-up
  responses in a row and then a response that is not one, the function has sent \<open>k + 1\<close>
  requests and answers from that last response; when every response signals warm-up the
  recursion never returns.
\<close>

theorem retry_until_settled:
  "(warming_up (service n) \<longrightarrow>
      getHuggingFaceResponse dir service userMessage n =
      getHuggingFaceResponse dir service userMessage (Suc n))
   \<and> ((\<forall>i<k. warming_up (service (n + i))) \<and> \<not> warming_up (service (n + k)) \<longrightarrow>
        getHuggingFaceResponse dir service userMessage n =
        Some \<lparr>hf_reply = settled_reply dir userMessage (service (n + k)),
              requests = Suc (n + k)\<rparr>)
   \<and> ((\<forall>i. warming_up (service (n + i))) \<longrightarrow>
        getHuggingFaceResponse dir service userMessage n = None)"
  using hf_retry [of service n dir userMessage] hf_returns [of k service n dir userMessage]
    hf_never_returns [of service n dir userMessage]
  by blast

lemma warm_example:
  "warming_up (Response 503 (Some \<lparr>estimated_time = Some 20, generated_text = None\<rparr>))"
  by (simp add: warming_up_def)

lemma ready_example:
  "\<not> warming_up (Response 200
       (Some \<lparr>estimated_time = None, generated_text = Some ''Sure, I can help with that.''\<rparr>))"
  by (simp add: warming_up_def)

lemma ready_reply:
  "settled_reply dir ''hello'' (Response 200
       (Some \<lparr>estimated_time = None, generated_text = Some ''Sure, I can help with that.''\<rparr>)) =
     ''Sure, I can help with that.''"
  by code_simp

lemma two_warmups:
  "\<forall>i<2. warming_up (responses_then
       [Response 503 (Some \<lparr>estimated_time = Some 20, generated_text = None\<rparr>),
        Response 503 (Some \<lparr>estimated_time = Some 20, generated_text = None\<rparr>)]
       (Response 200
          (Some \<lparr>estimated_time = None, generated_text = Some ''Sure, I can help with that.''\<rparr>))
       (0 + i))"
proof (intro allI impI)
  fix i :: nat
  assume "i < 2"
  then have "i = 0 \<or> i = 1"
    by auto
  then show "warming_up (responses_then
       [Response 503 (Some \<lparr>estimated_time = Some 20, generated_text = None\<rparr>),
        Response 503 (Some \<lparr>estimated_time = Some 20, generated_text = None\<rparr>)]
       (Response 200
          (Some \<lparr>estimated_time = None, generated_text = Some ''Sure, I can help with that.''\<rparr>))
       (0 + i))"
    using warm_example by (auto simp: responses_then_def)
qed

lemma then_ready:
  "\<not> warming_up (responses_then
       [Response 503 (Some \<lparr>estimated_time = Some 20, generated_text = None\<rparr>),
        Response 503 (Some \<lparr>estimated_time = Some 20, generated_text = None\<rparr>)]
       (Response 200
          (Some \<lparr>estimated_time = None, generated_text = Some ''Sure, I can help with that.''\<rparr>))
       (0 + 2))"
  using ready_example by (simp add: responses_then_def)

theorem retry_until_settled_witness:
  "warming_up (Response 503 (Some \<lparr>estimated_time = Some 20, generated_text = None\<rparr>))
   \<and> \<not> warming_up (Response 200
       (Some \<lparr>estimated_time = None, generated_text = Some ''Sure, I can help with that.''\<rparr>))
   \<and> getHuggingFaceResponse (map_of [])
       (responses_then
          [Response 503 (Some \<lparr>estimated_time = Some 20, generated_text = None\<rparr>),
           Response 503 (Some \<lparr>estimated_time = Some 20, generated_text = None\<rparr>)]
          (Response 200
             (Some \<lparr>estimated_time = None, generated_text = Some ''Sure, I can help with that.''\<rparr>)))
       ''hello'' 0 =
     Some \<lparr>hf_reply = ''Sure, I can help with that.'', requests = 3\<rparr>"
proof -
  let ?service = "responses_then
          [Response 503 (Some \<lparr>estimated_time = Some 20, generated_text = None\<rparr>),
           Response 503 (Some \<lparr>estimated_time = Some 20, generated_text = None\<rparr>)]
          (Response 200
             (Some \<lparr>estimated_time = None, generated_text = Some ''Sure, I can help with that.''\<rparr>))"
  have last: "?service (0 + 2) = Response 200
      (Some \<lparr>estimated_time = None, generated_text = Some ''Sure, I can help with that.''\<rparr>)"
    by (simp add: responses_then_def)
  from retry_until_settled [of ?service 0 "map_of []" "''hello''" 2] two_warmups then_ready
  have "getHuggingFaceResponse (map_of []) ?service ''hello'' 0 =
      Some \<lparr>hf_reply = settled_reply (map_of []) ''hello'' (?service (0 + 2)),
            requests = Suc (0 + 2)\<rparr>"
    by blast
  with last ready_reply [of "map_of []"] warm_example ready_example show ?thesis
    by (simp add: numeral_3_eq_3)
qed

text \<open>
  The claim as stated fails twice over: a service that always signals warm-up is asked
  again and again and the call never returns; and after three warm-up signals in a row
  the function has sent four requests, three of them re-attempts.
\<close>

theorem retry_until_settled_counterexample:
  "getHuggingFaceResponse (map_of [])
       (always (Response 503 (Some \<lparr>estimated_time = Some 20, generated_text = None\<rparr>)))
       ''hello'' 0 = None
   \<and> getHuggingFaceResponse (map_of [])
       (responses_then
          [Response 503 (Some \<lparr>estimated_time = Some 20, generated_text = None\<rparr>),
           Response 503 (Some \<lparr>estimated_time = Some 20, generated_text = None\<rparr>),
           Response 503 (Some \<lparr>estimated_time = Some 20, generated_text = None\<rparr>)]
          (Response 200
             (Some \<lparr>estimated_time = None, generated_text = Some ''Sure, I can help with that.''\<rparr>)))
       ''hello'' 0 =
     Some \<lparr>hf_reply = ''Sure, I can help with that.'', requests = 4\<rparr>"
proof
  have "\<forall>i. warming_up
      (always (Response 503 (Some \<lparr>estimated_time = Some 20, generated_text = None\<rparr>)) (0 + i))"
    using warm_example by (simp add: always_def)
  from hf_never_returns [OF this]
  show "getHuggingFaceResponse (map_of [])
       (always (Response 503 (Some \<lparr>estimated_time = Some 20, generated_text = None\<rparr>)))
       ''hello'' 0 = None" .
next
  let ?service = "responses_then
          [Response 503 (Some \<lparr>estimated_time = Some 20, generated_text = None\<rparr>),
           Response 503 (Some \<lparr>estimated_time = Some 20, generated_text = None\<rparr>),
           Response 503 (Some \<lparr>estimated_time = Some 20, generated_text = None\<rparr>)]
          (Response 200
             (Some \<lparr>estimated_time = None, generated_text = Some ''Sure, I can help with that.''\<rparr>))"
  have warm: "\<forall>i<3. warming_up (?service (0 + i))"
  proof (intro allI impI)
    fix i :: nat
    assume "i < 3"
    then have "i = 0 \<or> i = 1 \<or> i = 2"
      by auto
    then show "warming_up (?service (0 + i))"
      using warm_example by (auto simp: responses_then_def)
  qed
  have ready: "\<not> warming_up (?service (0 + 3))"
    using ready_example by (simp add: responses_then_def)
  have last: "?service (0 + 3) = Response 200
      (Some \<lparr>estimated_time = None, generated_text = Some ''Sure, I can help with that.''\<rparr>)"
    by (simp add: responses_then_def)
  from hf_returns [OF warm ready, of "map_of []" "''hello''"] last ready_reply [of "map_of []"]
  show "getHuggingFaceResponse (map_of []) ?service ''hello'' 0 =
     Some \<lparr>hf_reply = ''Sure, I can help with that.'', requests = 4\<rparr>"
    by simp
qed

section \<open>Properties of the product matcher\<close>

lemma digit_facts:
  assumes "isDigit c"
  shows "\<not> isSpace c" "\<not> isUpper c" "c \<noteq> CHR ''-''" "c \<noteq> CHR ''=''" "c \<noteq> CHR '':''"
  using assms by (auto simp: isDigit_def isSpace_def isUpper_def)

lemma digits_lower: "list_all isDigit N \<Longrightarrow> toLowerCase N = N"
  by (induction N) (auto simp: toLowerCase_def toLowerChar_def digit_facts)

lemma not_included_char: "c \<notin> set s \<Longrightarrow> \<not> str_includes s (c # p)"
  using set_mono_sublist [of "c # p" s] by (auto simp: str_includes_def)

lemma period_here_N:
  assumes "list_all isDigit N" and "N \<noteq> []"
  shows "period_here ('' '' @ N @ '' Months'') = Some N"
proof -
  from assms have hd: "\<not> isSpace (hd N)"
    by (cases N) (auto simp: digit_facts)
  then have d1: "dropWhile isSpace ('' '' @ N @ '' Months'') = N @ '' Months''"
    using assms(2) by (cases N) (auto simp: isSpace_def)
  from assms(1) have t: "takeWhile isDigit (N @ '' Months'') = N"
    by (induction N) (auto simp: isDigit_def)
  from assms(1) have d2: "dropWhile isDigit (N @ '' Months'') = '' Months''"
    by (induction N) (auto simp: isDigit_def)
  have "prefix ''month'' (toLowerCase ''Months'')"
    by code_simp
  with d1 t d2 assms(2) show ?thesis
    by (simp add: period_here_def Let_def isSpace_def)
qed

lemma not_dash_digit: "\<not> isDigit (CHR ''-'')"
  by (simp add: isDigit_def)

text \<open>The line \<open>- Warranty period: N Months\<close>, for a non-empty string \<open>N\<close> of digits.\<close>

lemma period_line_trim:
  "line = ''- Warranty period: '' @ N @ '' Months'' \<Longrightarrow> trim line = line"
  by (simp add: trim_def isSpace_def)

lemma period_line_lower:
  "list_all isDigit N \<Longrightarrow> line = ''- Warranty period: '' @ N @ '' Months'' \<Longrightarrow>
     toLowerCase line = ''- warranty period: '' @ N @ '' months''"
  using digits_lower [of N] by (simp add: toLowerCase_def toLowerChar_def isUpper_def)

lemma match_period_N:
  assumes "list_all isDigit N" and "N \<noteq> []"
    and "line = ''- Warranty period: '' @ N @ '' Months''"
  shows "match_period line = Some N"
  using period_here_N [OF assms(1,2)] assms(3)
  by (simp add: toLowerCase_def toLowerChar_def isUpper_def)

lemma period_line_labels:
  assumes "list_all isDigit N" and "line = ''- Warranty period: '' @ N @ '' Months''"
  shows "ci_includes line ''- warranty period:''"
    and "\<not> ci_includes line ''- warranty service offered:''"
    and "\<not> ci_includes line ''- repair services available:''"
proof -
  have "CHR ''-'' \<notin> set N"
  proof
    assume "CHR ''-'' \<in> set N"
    with assms(1) have "isDigit (CHR ''-'')"
      by (simp add: list_all_iff)
    with not_dash_digit show False ..
  qed
  then have "CHR ''-'' \<notin> set (N @ '' months'')"
    by simp
  then have tail: "\<And>q. \<not> sublist (CHR ''-'' # q) (N @ '' months'')"
    using not_included_char by (simp add: str_includes_def)
  note low = period_line_lower [OF assms]
  show "ci_includes line ''- warranty period:''"
    by (simp add: ci_includes_def str_includes_def low sublist_Cons_right)
  show "\<not> ci_includes line ''- warranty service offered:''"
    using tail by (simp add: ci_includes_def str_includes_def low sublist_Cons_right)
  show "\<not> ci_includes line ''- repair services available:''"
    using tail by (simp add: ci_includes_def str_includes_def low sublist_Cons_right)
qed

lemma period_line_extract:
  assumes "list_all isDigit N" and "N \<noteq> []"
    and "line = ''- Warranty period: '' @ N @ '' Months''"
  shows "extract_line line rest st = st\<lparr>warrantyPeriod := Some (N @ '' Months'')\<rparr>"
  using period_line_labels [OF assms(1,3)] match_period_N [OF assms]
  by (simp add: extract_line_def Let_def)

lemma period_line_plain:
  assumes "line = ''- Warranty period: '' @ N @ '' Months''"
  shows "\<not> is_header line" and "\<not> startsWith line ''===''"
  using assms by (simp_all add: is_header_def startsWith_def)



text \<open>Lines that the loop passes over, enters at, or stops at.\<close>

lemma header_no_rule: "is_header line \<Longrightarrow> \<not> str_includes line ''===''"
proof
  assume h: "is_header line" and "str_includes line ''===''"
  then have "CHR ''='' \<in> set line"
    using set_mono_sublist [of "''===''" line] by (auto simp: str_includes_def)
  moreover from h have "line \<noteq> []" and last: "last line = CHR '':''"
    by (simp_all add: is_header_def)
  then have "set line = set (butlast line) \<union> {CHR '':''}"
    using append_butlast_last_id [of line] by (metis list.simps(15) set_append empty_set)
  ultimately have "CHR ''='' \<in> set (butlast line)"
    by simp
  with h have "isUpper (CHR ''='') \<or> isSpace (CHR ''='')"
    by (auto simp: is_header_def list_all_iff)
  then show False
    by (simp add: isUpper_def isSpace_def)
qed

lemma dash_line_plain:
  assumes "line = CHR ''-'' # cs"
  shows "\<not> is_header line" and "\<not> startsWith line ''===''" and "\<not> opens_section mp line"
proof -
  show nh: "\<not> is_header line"
  proof
    assume h: "is_header line"
    with assms have "cs \<noteq> []"
      by (auto simp: is_header_def)
    with assms h have "isUpper (CHR ''-'') \<or> isSpace (CHR ''-'')"
      by (auto simp: is_header_def)
    then show False
      by (simp add: isUpper_def isSpace_def)
  qed
  show "\<not> startsWith line ''===''"
    using assms by (simp add: startsWith_def)
  from nh show "\<not> opens_section mp line"
    by (simp add: opens_section_def)
qed

lemma blank_line_plain:
  "\<not> is_header []" "\<not> startsWith [] ''===''" "\<not> opens_section mp []"
  by (simp_all add: is_header_def startsWith_def opens_section_def)

lemma loop_skip:
  "\<not> inProductSection st \<Longrightarrow> \<not> opens_section mp (trim raw) \<Longrightarrow>
     product_loop mp st (raw # ls) = product_loop mp st ls"
  by (auto simp: Let_def opens_section_def)

lemma loop_pre:
  "\<not> inProductSection st \<Longrightarrow> \<forall>raw \<in> set pre. \<not> opens_section mp (trim raw) \<Longrightarrow>
     product_loop mp st (pre @ ls) = product_loop mp st ls"
  by (induction pre) (simp_all add: loop_skip del: product_loop.simps(2))

lemma loop_enter:
  "opens_section mp (trim raw) \<Longrightarrow>
     product_loop mp st (raw # ls) =
     product_loop mp (st\<lparr>inProductSection := True, productSection := trim raw\<rparr>) ls"
  by (auto simp: Let_def opens_section_def)

lemma loop_plain:
  "inProductSection st \<Longrightarrow> \<not> is_header (trim raw) \<Longrightarrow> \<not> startsWith (trim raw) ''==='' \<Longrightarrow>
     product_loop mp st (raw # ls) = product_loop mp (extract_line (trim raw) ls st) ls"
  by (simp add: Let_def)

lemma loop_stop:
  "inProductSection st \<Longrightarrow> is_header (trim raw) \<Longrightarrow> \<not> opens_section mp (trim raw) \<Longrightarrow>
     product_loop mp st (raw # ls) = st"
  using header_no_rule [of "trim raw"] by (auto simp: Let_def opens_section_def)

lemma extract_unlabelled:
  "\<not> ci_includes line ''- warranty period:'' \<Longrightarrow>
   \<not> ci_includes line ''- warranty service offered:'' \<Longrightarrow>
   \<not> ci_includes line ''- repair services available:'' \<Longrightarrow>
     extract_line line ls st = st"
  by (simp add: extract_line_def Let_def)

lemma blank_unlabelled: "\<not> ci_includes [] (c # p)"
  by (simp add: ci_includes_def str_includes_def toLowerCase_def)

lemma loop_blanks:
  "inProductSection st \<Longrightarrow> \<forall>raw \<in> set blanks. trim raw = [] \<Longrightarrow>
     product_loop mp st (blanks @ ls) = product_loop mp st ls"
  by (induction blanks)
     (simp_all add: loop_plain blank_line_plain extract_unlabelled blank_unlabelled
        del: product_loop.simps(2))

text \<open>A trimmed line that is not empty starts with a character that is not a blank.\<close>

lemma trim_dropWhile: "trim (dropWhile isSpace s) = trim s"
  by (simp add: trim_def)

lemma trim_hd:
  assumes "trim s \<noteq> []"
  shows "\<not> isSpace (hd (trim s))"
proof -
  let ?t = "dropWhile isSpace s"
  have "trim s @ rev (takeWhile isSpace (rev ?t)) =
      rev (takeWhile isSpace (rev ?t) @ dropWhile isSpace (rev ?t))"
    by (simp only: trim_def rev_append)
  also have "\<dots> = ?t"
    by (simp only: takeWhile_dropWhile_id rev_rev_ident)
  finally have split: "?t = trim s @ rev (takeWhile isSpace (rev ?t))"
    by simp
  with assms have "hd ?t = hd (trim s)"
    by (metis hd_append2)
  moreover from split assms have "?t \<noteq> []"
    by (metis Nil_is_append_conv)
  then have "\<not> isSpace (hd ?t)"
    by (rule hd_dropWhile)
  ultimately show ?thesis
    by simp
qed

lemma header_starts_upper:
  assumes "is_header (trim raw)"
  shows "trim raw \<noteq> []" and "isUpper (hd (trim raw))"
proof -
  from assms show ne: "trim raw \<noteq> []"
    by (simp add: is_header_def)
  from assms have "butlast (trim raw) \<noteq> []"
    and all: "list_all (\<lambda>c. isUpper c \<or> isSpace c) (butlast (trim raw))"
    by (simp_all add: is_header_def)
  then have "hd (butlast (trim raw)) \<in> set (butlast (trim raw))"
    by simp
  with all have "isUpper (hd (butlast (trim raw))) \<or> isSpace (hd (butlast (trim raw)))"
    by (simp add: list_all_iff)
  moreover from \<open>butlast (trim raw) \<noteq> []\<close> have "hd (butlast (trim raw)) = hd (trim raw)"
    by (cases "trim raw") (auto split: if_splits)
  ultimately show "isUpper (hd (trim raw))"
    using trim_hd [OF ne] by simp
qed

text \<open>The inner loop over the item lines, and where it ends.\<close>

lemma repair_lines_items:
  "map trim raws = map (\<lambda>i. ''- '' @ i) items \<Longrightarrow>
     repair_lines (raws @ tail) = items @ repair_lines tail"
proof (induction raws arbitrary: items)
  case Nil
  then show ?case by simp
next
  case (Cons raw raws)
  then obtain i is' where items: "items = i # is'" and raw: "trim raw = ''- '' @ i"
    and rest: "map trim raws = map (\<lambda>i. ''- '' @ i) is'"
    by (cases items) auto
  from Cons.IH [OF rest] raw items show ?case
    by (simp add: Let_def startsWith_def)
qed

lemma repair_lines_end:
  assumes "\<forall>raw \<in> set blanks. trim raw = []"
    and "rest = [] \<or> is_header (trim (hd rest))"
  shows "repair_lines (take n (blanks @ rest)) = []"
proof (cases n)
  case 0
  then show ?thesis by simp
next
  case (Suc m)
  show ?thesis
  proof (cases blanks)
    case (Cons b bs)
    with assms(1) have "trim b = []"
      by simp
    with Cons Suc show ?thesis
      by (simp add: Let_def startsWith_def)
  next
    case Nil
    show ?thesis
    proof (cases rest)
      case Nil
      with \<open>blanks = []\<close> show ?thesis by simp
    next
      case (Cons nh tl)
      with assms(2) have "is_header (trim nh)"
        by simp
      from header_starts_upper [OF this]
      have ne: "trim nh \<noteq> []" and up: "isUpper (hd (trim nh))" .
      from up have "hd (trim nh) \<noteq> CHR ''-''"
        by (auto simp: isUpper_def)
      with ne have "\<not> startsWith (trim nh) ''- ''"
        by (cases "trim nh") (auto simp: startsWith_def)
      with ne up Cons \<open>blanks = []\<close> Suc show ?thesis
        by (simp add: Let_def)
    qed
  qed
qed

lemma repair_lines_section:
  assumes "map trim raws = map (\<lambda>i. ''- '' @ i) items" and "length items \<le> 9"
    and "\<forall>raw \<in> set blanks. trim raw = []"
    and "rest = [] \<or> is_header (trim (hd rest))"
  shows "repair_lines (take 9 (raws @ blanks @ rest)) = items"
proof -
  from assms(1) have len: "length raws = length items"
    by (metis length_map)
  with assms(2) have "take 9 (raws @ blanks @ rest) = raws @ take (9 - length raws) (blanks @ rest)"
    by simp
  then have "repair_lines (take 9 (raws @ blanks @ rest)) =
      items @ repair_lines (take (9 - length raws) (blanks @ rest))"
    by (simp only: repair_lines_items [OF assms(1)])
  also have "\<dots> = items"
    by (simp only: repair_lines_end [OF assms(3,4)] append_Nil2)
  finally show ?thesis .
qed

text \<open>The service line, the label of the repair services and the item lines.\<close>

lemma service_line_extract:
  assumes "line = ''- Warranty service offered: '' @ S" and "trim S = S"
    and "\<not> ci_includes line ''- warranty period:''"
    and "\<not> ci_includes line ''- repair services available:''"
  shows "extract_line line ls st = st\<lparr>warrantyService := Some S\<rparr>"
proof -
  have low: "toLowerCase line = ''- warranty service offered: '' @ toLowerCase S"
    using assms(1) by (simp add: toLowerCase_def toLowerChar_def isUpper_def)
  have label: "ci_includes line ''- warranty service offered:''"
    by (simp add: ci_includes_def str_includes_def low sublist_Cons_right)
  have "remove_label ''- warranty service offered:'' line = dropWhile isSpace S"
    using assms(1) by (simp add: toLowerCase_def toLowerChar_def isUpper_def isSpace_def)
  then have "trim (remove_label ''- warranty service offered:'' line) = S"
    using assms(2) by (simp add: trim_dropWhile)
  with label assms(3,4) show ?thesis
    by (simp add: extract_line_def Let_def)
qed

lemma repair_label_facts:
  "\<not> ci_includes ''- Repair services available:'' ''- warranty period:''"
  "\<not> ci_includes ''- Repair services available:'' ''- warranty service offered:''"
  "ci_includes ''- Repair services available:'' ''- repair services available:''"
  by code_simp+

lemma repair_label_extract:
  assumes "line = ''- Repair services available:''"
  shows "extract_line line ls st = st\<lparr>repairServices := repair_lines (take 9 ls)\<rparr>"
  using repair_label_facts assms by (simp only: extract_line_def Let_def if_True if_False)

lemma loop_items:
  assumes "inProductSection st"
    and "map trim raws = map (\<lambda>i. ''- '' @ i) items"
    and "\<forall>i \<in> set items.
           \<not> ci_includes (''- '' @ i) ''- warranty period:'' \<and>
           \<not> ci_includes (''- '' @ i) ''- warranty service offered:'' \<and>
           \<not> ci_includes (''- '' @ i) ''- repair services available:''"
  shows "product_loop mp st (raws @ ls) = product_loop mp st ls"
  using assms(2,3)
proof (induction raws arbitrary: items)
  case Nil
  show ?case by simp
next
  case (Cons raw raws)
  then obtain i is' where items: "items = i # is'" and raw: "trim raw = ''- '' @ i"
    and rest: "map trim raws = map (\<lambda>i. ''- '' @ i) is'"
    by (cases items) auto
  from raw have dash: "trim raw = CHR ''-'' # (CHR '' '' # i)"
    by simp
  from Cons.prems(2) items raw
  have "extract_line (trim raw) (raws @ ls) st = st"
    by (intro extract_unlabelled) simp_all
  with loop_plain [OF assms(1) dash_line_plain(1,2) [OF dash], of mp "raws @ ls"]
  have "product_loop mp st (raw # raws @ ls) = product_loop mp st (raws @ ls)"
    by simp
  moreover from Cons.prems(2) items have "\<forall>i \<in> set is'.
           \<not> ci_includes (''- '' @ i) ''- warranty period:'' \<and>
           \<not> ci_includes (''- '' @ i) ''- warranty service offered:'' \<and>
           \<not> ci_includes (''- '' @ i) ''- repair services available:''"
    by simp
  ultimately show ?case
    using Cons.IH [OF rest] by (simp del: product_loop.simps(2))
qed

lemma loop_end:
  assumes "inProductSection st"
    and "\<forall>raw \<in> set blanks. trim raw = []"
    and "rest = [] \<or> (is_header (trim (hd rest)) \<and> \<not> opens_section mp (trim (hd rest)))"
  shows "product_loop mp st (blanks @ rest) = st"
proof -
  have "product_loop mp st rest = st"
  proof (cases rest)
    case Nil
    then show ?thesis by simp
  next
    case (Cons nh tl)
    with assms(3) have "is_header (trim nh)" and "\<not> opens_section mp (trim nh)"
      by simp_all
    from loop_stop [OF assms(1) this] Cons show ?thesis
      by (simp del: product_loop.simps(2))
  qed
  with loop_blanks [OF assms(1,2)] show ?thesis
    by (simp del: product_loop.simps(2))
qed

lemma loop_service_block:
  assumes "inProductSection st"
    and "map trim sv =
          (case service of None \<Rightarrow> [] | Some S \<Rightarrow> [''- Warranty service offered: '' @ S])"
    and "\<forall>S. service = Some S \<longrightarrow>
           trim S = S \<and>
           \<not> ci_includes (''- Warranty service offered: '' @ S) ''- warranty period:'' \<and>
           \<not> ci_includes (''- Warranty service offered: '' @ S) ''- repair services available:''"
  shows "product_loop mp st (sv @ ls) =
     product_loop mp (case service of None \<Rightarrow> st | Some S \<Rightarrow> st\<lparr>warrantyService := Some S\<rparr>) ls"
proof (cases service)
  case None
  with assms(2) show ?thesis by simp
next
  case (Some S)
  with assms(2) obtain raw where sv: "sv = [raw]"
    and raw: "trim raw = ''- Warranty service offered: '' @ S"
    by (cases sv) auto
  from raw have dash: "trim raw = CHR ''-'' # '' Warranty service offered: '' @ S"
    by simp
  from assms(3) Some raw
  have "extract_line (trim raw) ls st = st\<lparr>warrantyService := Some S\<rparr>"
    by (intro service_line_extract) simp_all
  with loop_plain [OF assms(1) dash_line_plain(1,2) [OF dash], of mp ls] sv Some
  show ?thesis
    by (simp del: product_loop.simps(2))
qed

lemma loop_repair_block:
  assumes "inProductSection st"
    and "map trim rp =
          (case repair of
             None \<Rightarrow> []
           | Some items \<Rightarrow> ''- Repair services available:'' # map (\<lambda>i. ''- '' @ i) items)"
    and "\<forall>items. repair = Some items \<longrightarrow>
           length items \<le> 9 \<and>
           (\<forall>i \<in> set items.
              \<not> ci_includes (''- '' @ i) ''- warranty period:'' \<and>
              \<not> ci_includes (''- '' @ i) ''- warranty service offered:'' \<and>
              \<not> ci_includes (''- '' @ i) ''- repair services available:'')"
    and "\<forall>raw \<in> set blanks. trim raw = []"
    and "rest = [] \<or> (is_header (trim (hd rest)) \<and> \<not> opens_section mp (trim (hd rest)))"
  shows "product_loop mp st (rp @ blanks @ rest) =
     (case repair of None \<Rightarrow> st | Some items \<Rightarrow> st\<lparr>repairServices := items\<rparr>)"
proof (cases repair)
  case None
  with assms(2) loop_end [OF assms(1,4,5)] show ?thesis
    by (simp del: product_loop.simps(2))
next
  case (Some items)
  with assms(2) obtain lab raws where rp: "rp = lab # raws"
    and lab: "trim lab = ''- Repair services available:''"
    and raws: "map trim raws = map (\<lambda>i. ''- '' @ i) items"
    by (cases rp) auto
  from assms(3) Some have len: "length items \<le> 9"
    and clean: "\<forall>i \<in> set items.
              \<not> ci_includes (''- '' @ i) ''- warranty period:'' \<and>
              \<not> ci_includes (''- '' @ i) ''- warranty service offered:'' \<and>
              \<not> ci_includes (''- '' @ i) ''- repair services available:''"
    by simp_all
  from assms(5) have rest': "rest = [] \<or> is_header (trim (hd rest))"
    by blast
  let ?st = "st\<lparr>repairServices := items\<rparr>"
  from lab have dash: "trim lab = CHR ''-'' # '' Repair services available:''"
    by simp
  have "extract_line (trim lab) (raws @ blanks @ rest) st =
      st\<lparr>repairServices := repair_lines (take 9 (raws @ blanks @ rest))\<rparr>"
    by (rule repair_label_extract [OF lab])
  also have "\<dots> = ?st"
    by (simp only: repair_lines_section [OF raws len assms(4) rest'])
  finally have "product_loop mp st (lab # raws @ blanks @ rest) =
      product_loop mp ?st (raws @ blanks @ rest)"
    using loop_plain [OF assms(1) dash_line_plain(1,2) [OF dash], of mp "raws @ blanks @ rest"]
    by simp
  also from assms(1) have in': "inProductSection ?st"
    by simp
  from loop_items [OF in' raws clean, of mp "blanks @ rest"]
  have "product_loop mp ?st (raws @ blanks @ rest) = product_loop mp ?st (blanks @ rest)" .
  also have "\<dots> = ?st"
    by (rule loop_end [OF in' assms(4,5)])
  finally show ?thesis
    using rp Some by (simp del: product_loop.simps(2))
qed

lemma names_product_opens:
  assumes "is_header line" and "str_includes (toLowerCase (replace_first '':'' [] line)) mp"
  shows "opens_section mp line"
  using assms header_no_rule [OF assms(1)] by (simp add: opens_section_def product_header_def)

lemma section_scan:
  assumes "\<forall>raw \<in> set pre. \<not> opens_section mp (trim raw)"
    and "is_header (trim h)"
    and "str_includes (toLowerCase (replace_first '':'' [] (trim h))) mp"
    and "trim pl = ''- Warranty period: '' @ N @ '' Months''"
    and "list_all isDigit N" and "N \<noteq> []"
    and "map trim sv =
          (case service of None \<Rightarrow> [] | Some S \<Rightarrow> [''- Warranty service offered: '' @ S])"
    and "\<forall>S. service = Some S \<longrightarrow>
           S \<noteq> [] \<and> trim S = S \<and>
           \<not> ci_includes (''- Warranty service offered: '' @ S) ''- warranty period:'' \<and>
           \<not> ci_includes (''- Warranty service offered: '' @ S) ''- repair services available:''"
    and "map trim rp =
          (case repair of
             None \<Rightarrow> []
           | Some items \<Rightarrow> ''- Repair services available:'' # map (\<lambda>i. ''- '' @ i) items)"
    and "\<forall>items. repair = Some items \<longrightarrow>
           length items \<le> 9 \<and>
           (\<forall>i \<in> set items.
              \<not> ci_includes (''- '' @ i) ''- warranty period:'' \<and>
              \<not> ci_includes (''- '' @ i) ''- warranty service offered:'' \<and>
              \<not> ci_includes (''- '' @ i) ''- repair services available:'')"
    and "\<forall>raw \<in> set blanks. trim raw = []"
    and "rest = [] \<or> (is_header (trim (hd rest)) \<and> \<not> opens_section mp (trim (hd rest)))"
  shows "product_loop mp product_start (pre @ [h] @ [pl] @ sv @ rp @ blanks @ rest) =
     product_start
       \<lparr>inProductSection := True, productSection := trim h,
        warrantyPeriod := Some (N @ '' Months''),
        repairServices := (case repair of None \<Rightarrow> [] | Some items \<Rightarrow> items),
        warrantyService := service\<rparr>"
proof -
  let ?st0 = "product_start\<lparr>inProductSection := True, productSection := trim h\<rparr>"
  let ?st1 = "?st0\<lparr>warrantyPeriod := Some (N @ '' Months'')\<rparr>"
  let ?st2 = "case service of None \<Rightarrow> ?st1 | Some S \<Rightarrow> ?st1\<lparr>warrantyService := Some S\<rparr>"
  let ?tail = "sv @ rp @ blanks @ rest"
  have out: "\<not> inProductSection product_start"
    by (simp add: product_start_def)
  have in0: "inProductSection ?st0" and in1: "inProductSection ?st1"
    by simp_all
  have in2: "inProductSection ?st2"
    by (cases service) simp_all
  from assms(4) have dash: "trim pl = CHR ''-'' # '' Warranty period: '' @ N @ '' Months''"
    by simp
  have "product_loop mp product_start (pre @ [h] @ [pl] @ ?tail) =
      product_loop mp product_start (h # pl # ?tail)"
    using loop_pre [OF out assms(1), of "h # pl # ?tail"] by (simp del: product_loop.simps(2))
  also have "\<dots> = product_loop mp ?st0 (pl # ?tail)"
    by (rule loop_enter [OF names_product_opens [OF assms(2,3)]])
  also have "\<dots> = product_loop mp (extract_line (trim pl) ?tail ?st0) ?tail"
    by (rule loop_plain [OF in0 dash_line_plain(1,2) [OF dash]])
  also have "extract_line (trim pl) ?tail ?st0 = ?st1"
    by (rule period_line_extract [OF assms(5,6,4)])
  also have "product_loop mp ?st1 (sv @ rp @ blanks @ rest) =
      product_loop mp ?st2 (rp @ blanks @ rest)"
    using assms(8) by (intro loop_service_block [OF in1 assms(7)]) simp
  also have "\<dots> = (case repair of None \<Rightarrow> ?st2 | Some items \<Rightarrow> ?st2\<lparr>repairServices := items\<rparr>)"
    by (rule loop_repair_block [OF in2 assms(9,10,11,12)])
  finally show ?thesis
    by (cases service; cases repair) (simp_all add: product_start_def)
qed




text \<open>
  Two corpora outside the layout of the theorem, in the way the live source fetcher
  writes them. The header of its smartphone section has lower-case letters and brackets,
  so it is no header for the matcher, and the header test of the product \<open>smartphone\<close>
  accepts every header that contains \<open>phone\<close>: a question about smartphones reads the
  section of the headphones. A record of the fetcher has its services on the line of the
  label, where no item is collected.
\<close>

lemma product_matcher_other_layouts:
  "getAnswerFromData ''What is the smartphone warranty period?''
     (''SMARTPHONE (including Certified Re-Newed model):'' @ [CHR 0x0A]
      @ ''- Warranty period: 24 Months'' @ [CHR 0x0A]
      @ [CHR 0x0A]
      @ ''GALAXY BUDS AND WIRELESS HEADPHONES:'' @ [CHR 0x0A]
      @ ''- Warranty period: 12 Months'') =
     Some ''Warranty period: 12 Months''
   \<and> getAnswerFromData ''What is tablet warranty period?''
       (warranty_entry ''TABLET'' ''24 Months'' three_services) =
     Some ''Warranty period: 24 Months. Our Samsung Authorised Service Partners offer both In and Out of warranty repairs.''"
  by code_simp

section \<open>Properties of the live source fetcher\<close>

lemma intro_needs_catalog: "needs_catalog warranty_intro"
  by code_simp

lemma no_records_empty: "records_found nodes = 0 \<Longrightarrow> product_records nodes = []"
  by (simp add: records_found_def product_records_def filter_empty_conv)

text \<open>When no record was recognized, the catalog is appended.\<close>

lemma catalog_when_no_records:
  assumes "records_found (product_nodes pg) = 0"
  shows "fetchWarrantyFromWebsite (Inr pg) =
     Inr (warranty_intro @ known_catalog @ ''=== WARRANTY FAQs ==='' @ nl @ nl
          @ faq_section (faq_nodes pg) @ warranty_outro)"
  using no_records_empty [OF assms] intro_needs_catalog
  by (simp add: fetchWarrantyFromWebsite_def Let_def)

text \<open>
  C8, at the failing input. The page has one element: its text is \<open>Tablet\<close> and its parent
  reads \<open>Tablet Warranty period 24 Months\<close>. The first loop recognizes one record, the one
  for \<open>TABLET\<close>; the text then contains neither \<open>SMARTPHONE:\<close> nor \<open>COOKER HOOD:\<close>, so the
  hard-coded catalog is appended after the recognized record all the same.
\<close>

theorem catalog_despite_record:
  "records_found
     [\<lparr>node_text = ''Tablet'', parent_text = ''Tablet Warranty period 24 Months'', next_text = []\<rparr>] = 1
   \<and> product_records
     [\<lparr>node_text = ''Tablet'', parent_text = ''Tablet Warranty period 24 Months'', next_text = []\<rparr>] =
       warranty_entry ''TABLET'' ''24 Months'' three_services
   \<and> fetchWarrantyFromWebsite
       (Inr \<lparr>product_nodes =
               [\<lparr>node_text = ''Tablet'', parent_text = ''Tablet Warranty period 24 Months'',
                 next_text = []\<rparr>],
             faq_nodes = []\<rparr>) =
       Inr (warranty_intro
            @ warranty_entry ''TABLET'' ''24 Months'' three_services
            @ known_catalog
            @ ''=== WARRANTY FAQs ==='' @ nl @ nl
            @ warranty_outro)"
  by code_simp

end
